theory Spec2Isabelle
  imports Main
begin

section \<open>The download-and-extract program (Exercise-1/main.py)\<close>

text \<open>
  The program fetches a fixed list of zip archives over HTTP, writes each into the
  directory \<^verbatim>\<open>downloads\<close>, extracts it there and removes the archive. Everything it does
  is an effect, so the model passes a world (the filesystem and a trace of what the program
  printed, requested and wrote) through every function; the answers of the network, of the
  zip library and of the operating system are read from an environment. An exception is a
  value of type \<open>exn\<close>: a function returns \<open>(Inl e, w)\<close> when it raises \<open>e\<close> in world \<open>w\<close>.
\<close>

subsection \<open>Data\<close>

type_synonym bytes = string

text \<open>A path is the list of its components: \<^verbatim>\<open>Path("downloads") / "a.zip"\<close> is
  \<open>[''downloads'', ''a.zip'']\<close>.\<close>

type_synonym path = "string list"

text \<open>
  The exception classes the program meets. \<open>RequestException\<close> stands for
  \<^verbatim>\<open>requests.exceptions.RequestException\<close> and its subclasses, \<open>ClientError\<close> for the
  errors of an aiohttp request, \<open>OSError\<close> for the errors of \<^verbatim>\<open>open\<close>, \<^verbatim>\<open>write\<close>,
  \<^verbatim>\<open>mkdir\<close> and \<^verbatim>\<open>os.remove\<close>, \<open>OtherException\<close> for any other class derived from
  \<^verbatim>\<open>Exception\<close>. All of them derive from \<^verbatim>\<open>Exception\<close> except \<open>KeyboardInterrupt\<close>,
  which the model raises where \<^verbatim>\<open>input\<close> is read and nowhere else.
\<close>

datatype exn =
    RequestException
  | ClientError
  | BadZipFile
  | RuntimeError
  | OSError
  | OtherException
  | EOFError
  | KeyboardInterrupt

fun is_RequestException :: "exn \<Rightarrow> bool" where
  "is_RequestException RequestException = True"
| "is_RequestException _ = False"

fun is_Exception :: "exn \<Rightarrow> bool" where
  "is_Exception KeyboardInterrupt = False"
| "is_Exception _ = True"

text \<open>The lines the program prints, one constructor for each \<^verbatim>\<open>print\<close> of the source.\<close>

datatype msg =
    Downloading string
  | Downloaded string
  | FailedDownload string exn
  | Extracted string
  | FailedExtract path exn
  | StartingSync
  | SyncCompleted
  | StartingThreaded
  | ThreadedCompleted
  | StartingAsync
  | AsyncCompleted
  | NonInteractiveMode
  | ChooseMethod
  | MenuSync
  | MenuThreaded
  | MenuAsync
  | EnterChoice
  | NoInputAvailable

text \<open>
  What the program does to the outside, in order: a printed line, the call
  \<^verbatim>\<open>requests.get(uri, stream=..., timeout=...)\<close>, the call
  \<^verbatim>\<open>session.get(uri, timeout=ClientTimeout(total=...))\<close>, and one \<^verbatim>\<open>f.write(chunk)\<close> of the
  fetch loop.
\<close>

datatype event =
    Print msg
  | Requests_get string bool nat
  | Session_get string nat
  | Write path bytes

text \<open>The world: the disk as the regular files it holds, by path (directories are not part
  of the model), and the trace.\<close>

record world =
  files :: "path \<rightharpoonup> bytes"
  trace :: "event list"

text \<open>
  The answer of the server: no answer at all (timeout, DNS failure, refused connection), or
  a status, the body, and whether the connection breaks after the body that arrived. The
  body is given as the pieces that the iterator of the library yields for a requested chunk
  size: how the library cuts the stream (decoding, chunked transfer) is not the program's
  doing, and the length of a piece need not be the requested size.
\<close>

datatype http_reply = TransportError | Response nat "nat \<Rightarrow> bytes list" bool

text \<open>
  Why the zip library fails to extract one member, after the archive was opened: the member
  is encrypted (\<^verbatim>\<open>RuntimeError\<close>), its data do not match the checksum (\<^verbatim>\<open>BadZipFile\<close>), a
  file or directory cannot be written (\<^verbatim>\<open>OSError\<close>), or anything else (an unsupported
  compression, an empty name), which raises some other class derived from \<^verbatim>\<open>Exception\<close>.
\<close>

datatype extract_failure = Encrypted | BadCRC | CannotWrite | OtherFailure

fun raised_by :: "extract_failure \<Rightarrow> exn" where
  "raised_by Encrypted = RuntimeError"
| "raised_by BadCRC = BadZipFile"
| "raised_by CannotWrite = OSError"
| "raised_by OtherFailure = OtherException"

text \<open>
  The environment, which answers for everything outside the program:
  \<^item> the network, by locator and timeout;
  \<^item> the zip library's reading of a file's bytes: \<open>None\<close> when \<^verbatim>\<open>ZipFile(...)\<close> raises
    \<^verbatim>\<open>BadZipFile\<close>, else the members of the archive in order, each with its name as
    \<^verbatim>\<open>namelist()\<close> gives it;
  \<^item> the zip library's extraction of one member into a directory, on the files there are:
    whether it fails, and the files it has written (where it sanitises the name to, what it
    wrote before a failure);
  \<^item> the paths at which opening or writing the fetched file fails, the paths at which
    \<^verbatim>\<open>os.remove\<close> fails, whether \<^verbatim>\<open>mkdir\<close> of the downloads directory fails;
  \<^item> standard input: whether it is a terminal, and what \<^verbatim>\<open>input\<close> gives, a line of code
    points or an exception;
  \<^item> the order in which the units of a concurrent orchestrator are run.
\<close>

record env =
  http_get :: "string \<Rightarrow> nat \<Rightarrow> http_reply"
  zip_parse :: "bytes \<Rightarrow> (string \<times> bytes) list option"
  zip_extract :: "path \<Rightarrow> string \<times> bytes \<Rightarrow> (path \<rightharpoonup> bytes)
                    \<Rightarrow> extract_failure option \<times> (path \<times> bytes) list"
  write_fails :: "path \<Rightarrow> bool"
  remove_fails :: "path \<Rightarrow> bool"
  mkdir_fails :: bool
  stdin_isatty :: bool
  stdin_line :: "exn + nat list"
  schedule :: "nat list"

definition emit :: "event \<Rightarrow> world \<Rightarrow> world" where
  "emit ev w = w\<lparr>trace := trace w @ [ev]\<rparr>"

subsection \<open>Helpers\<close>

definition download_uris :: "string list" where
  "download_uris =
    [''https://divvy-tripdata.s3.amazonaws.com/Divvy_Trips_2018_Q4.zip'',
     ''https://divvy-tripdata.s3.amazonaws.com/Divvy_Trips_2019_Q1.zip'',
     ''https://divvy-tripdata.s3.amazonaws.com/Divvy_Trips_2019_Q2.zip'',
     ''https://divvy-tripdata.s3.amazonaws.com/Divvy_Trips_2019_Q3.zip'',
     ''https://divvy-tripdata.s3.amazonaws.com/Divvy_Trips_2019_Q4.zip'',
     ''https://divvy-tripdata.s3.amazonaws.com/Divvy_Trips_2020_Q1.zip'',
     ''https://divvy-tripdata.s3.amazonaws.com/Divvy_Trips_2220_Q1.zip'']"

text \<open>\<^verbatim>\<open>Path("downloads").mkdir(exist_ok=True)\<close>: an existing directory is no error.\<close>

definition create_downloads_directory :: "env \<Rightarrow> world \<Rightarrow> (exn + path) \<times> world" where
  "create_downloads_directory e w =
     (if mkdir_fails e then (Inl OSError, w) else (Inr [''downloads''], w))"

text \<open>\<^verbatim>\<open>str.split(sep)\<close> for a one-character separator: never an empty list.\<close>

fun split_on :: "char \<Rightarrow> string \<Rightarrow> string list" where
  "split_on c [] = [[]]"
| "split_on c (x # xs) =
     (if x = c then [] # split_on c xs
      else (case split_on c xs of [] \<Rightarrow> [[x]] | y # ys \<Rightarrow> (x # y) # ys))"

definition extract_filename_from_uri :: "string \<Rightarrow> string" where
  "extract_filename_from_uri uri = last (split_on CHR ''/'' uri)"

text \<open>\<^verbatim>\<open>downloads_dir / filename\<close> for a name without separator: pathlib drops an empty
  component and a single dot.\<close>

definition pjoin :: "path \<Rightarrow> string \<Rightarrow> path" where
  "pjoin d n = (if n = [] \<or> n = ''.'' then d else d @ [n])"

definition parent :: "path \<Rightarrow> path" where
  "parent p = butlast p"

definition name :: "path \<Rightarrow> string" where
  "name p = (if p = [] then [] else last p)"

subsection \<open>The blocking fetcher\<close>

text \<open>\<^verbatim>\<open>Response.raise_for_status()\<close> of requests raises \<^verbatim>\<open>HTTPError\<close> for the statuses
  400 to 599 and for no other.\<close>

definition requests_raise_for_status :: "nat \<Rightarrow> bool" where
  "requests_raise_for_status status = (400 \<le> status \<and> status < 600)"

text \<open>\<^verbatim>\<open>response.iter_content(chunk_size=n)\<close>: the pieces the library yields when it is
  asked for chunks of \<open>n\<close> bytes.\<close>

definition iter_content :: "(nat \<Rightarrow> bytes list) \<Rightarrow> nat \<Rightarrow> bytes list" where
  "iter_content body chunk_size = body chunk_size"

text \<open>\<^verbatim>\<open>open(filepath, 'wb')\<close> creates the file or truncates it; \<^verbatim>\<open>f.write(chunk)\<close>
  appends.\<close>

definition open_wb :: "path \<Rightarrow> world \<Rightarrow> world" where
  "open_wb p w = w\<lparr>files := (files w)(p \<mapsto> [])\<rparr>"

definition f_write :: "path \<Rightarrow> bytes \<Rightarrow> world \<Rightarrow> world" where
  "f_write p chunk w =
     emit (Write p chunk)
       (w\<lparr>files := (files w)(p \<mapsto> (case files w p of None \<Rightarrow> chunk | Some old \<Rightarrow> old @ chunk))\<rparr>)"

fun write_chunks :: "path \<Rightarrow> bytes list \<Rightarrow> world \<Rightarrow> world" where
  "write_chunks p [] w = w"
| "write_chunks p (chunk # chunks) w = write_chunks p chunks (f_write p chunk w)"

text \<open>The \<^verbatim>\<open>try\<close> block of \<^verbatim>\<open>download_file_sync\<close>.\<close>

definition download_file_sync_try ::
  "env \<Rightarrow> string \<Rightarrow> path \<Rightarrow> world \<Rightarrow> (exn + path) \<times> world" where
  "download_file_sync_try e uri downloads_dir w =
     (let filename = extract_filename_from_uri uri;
          filepath = pjoin downloads_dir filename;
          w1 = emit (Print (Downloading filename)) w;
          w2 = emit (Requests_get uri True 30) w1
      in case http_get e uri 30 of
           TransportError \<Rightarrow> (Inl RequestException, w2)
         | Response status body broken \<Rightarrow>
             if requests_raise_for_status status then (Inl RequestException, w2)
             else if write_fails e filepath then (Inl OSError, w2)
             else
               let w3 = write_chunks filepath (iter_content body 8192) (open_wb filepath w2)
               in if broken then (Inl RequestException, w3)
                  else (Inr filepath, emit (Print (Downloaded filename)) w3))"

text \<open>\<^verbatim>\<open>except requests.exceptions.RequestException\<close>: any other exception goes on.\<close>

definition download_file_sync ::
  "env \<Rightarrow> string \<Rightarrow> path \<Rightarrow> world \<Rightarrow> (exn + path option) \<times> world" where
  "download_file_sync e uri downloads_dir w =
     (case download_file_sync_try e uri downloads_dir w of
        (Inr filepath, w') \<Rightarrow> (Inr (Some filepath), w')
      | (Inl x, w') \<Rightarrow>
          if is_RequestException x then (Inr None, emit (Print (FailedDownload uri x)) w')
          else (Inl x, w'))"

subsection \<open>The unpacker\<close>

text \<open>The files a library call has written, put on the disk in order.\<close>

fun put_files :: "(path \<times> bytes) list \<Rightarrow> (path \<rightharpoonup> bytes) \<Rightarrow> (path \<rightharpoonup> bytes)" where
  "put_files [] fs = fs"
| "put_files ((q, c) # written) fs = put_files written (fs(q \<mapsto> c))"

text \<open>
  \<^verbatim>\<open>zip_ref.extractall(extract_dir)\<close> is the loop
  \<^verbatim>\<open>for zipinfo in members: self._extract_member(zipinfo, path, pwd)\<close>: the members are
  extracted in archive order into the directory, and the first member that fails ends the
  loop with its exception. What the extraction of one member does is the environment's
  answer.
\<close>

fun extractall :: "env \<Rightarrow> path \<Rightarrow> (string \<times> bytes) list \<Rightarrow> world \<Rightarrow> (exn + unit) \<times> world" where
  "extractall e d [] w = (Inr (), w)"
| "extractall e d (member # members) w =
     (case zip_extract e d member (files w) of
        (Some failure, written) \<Rightarrow>
          (Inl (raised_by failure), w\<lparr>files := put_files written (files w)\<rparr>)
      | (None, written) \<Rightarrow>
          extractall e d members (w\<lparr>files := put_files written (files w)\<rparr>))"

text \<open>\<^verbatim>\<open>os.remove(path)\<close>: an error when there is no such file or it cannot be removed.\<close>

definition os_remove :: "env \<Rightarrow> path \<Rightarrow> world \<Rightarrow> (exn + unit) \<times> world" where
  "os_remove e p w =
     (if files w p = None \<or> remove_fails e p then (Inl OSError, w)
      else (Inr (), w\<lparr>files := (files w)(p := None)\<rparr>))"

text \<open>The \<^verbatim>\<open>try\<close> block of \<^verbatim>\<open>extract_zip_file\<close>.\<close>

definition extract_zip_file_try ::
  "env \<Rightarrow> path \<Rightarrow> world \<Rightarrow> (exn + string list) \<times> world" where
  "extract_zip_file_try e zip_filepath w =
     (case files w zip_filepath of
        None \<Rightarrow> (Inl OSError, w)
      | Some content \<Rightarrow>
          (case zip_parse e content of
             None \<Rightarrow> (Inl BadZipFile, w)
           | Some entries \<Rightarrow>
               (case extractall e (parent zip_filepath) entries w of
                  (Inl x, w1) \<Rightarrow> (Inl x, w1)
                | (Inr _, w1) \<Rightarrow>
                    (let extracted_files = map fst entries
                     in case os_remove e zip_filepath w1 of
                          (Inl x, w2) \<Rightarrow> (Inl x, w2)
                        | (Inr _, w2) \<Rightarrow>
                            (Inr extracted_files,
                             emit (Print (Extracted (name zip_filepath))) w2)))))"

text \<open>\<^verbatim>\<open>except (zipfile.BadZipFile, Exception)\<close>: the handler prints, removes the file if
  it exists, and returns \<^verbatim>\<open>None\<close>; an error of that removal is not caught.\<close>

definition extract_zip_file ::
  "env \<Rightarrow> path \<Rightarrow> world \<Rightarrow> (exn + string list option) \<times> world" where
  "extract_zip_file e zip_filepath w =
     (case extract_zip_file_try e zip_filepath w of
        (Inr extracted_files, w') \<Rightarrow> (Inr (Some extracted_files), w')
      | (Inl x, w') \<Rightarrow>
          if is_Exception x then
            (let w1 = emit (Print (FailedExtract zip_filepath x)) w'
             in if files w1 zip_filepath \<noteq> None then
                  (case os_remove e zip_filepath w1 of
                     (Inl x2, w2) \<Rightarrow> (Inl x2, w2)
                   | (Inr _, w2) \<Rightarrow> (Inr None, w2))
                else (Inr None, w1))
          else (Inl x, w'))"

subsection \<open>The sequential orchestrator\<close>

definition download_and_extract_sync ::
  "env \<Rightarrow> string \<Rightarrow> path \<Rightarrow> world \<Rightarrow> (exn + unit) \<times> world" where
  "download_and_extract_sync e uri downloads_dir w =
     (case download_file_sync e uri downloads_dir w of
        (Inl x, w1) \<Rightarrow> (Inl x, w1)
      | (Inr None, w1) \<Rightarrow> (Inr (), w1)
      | (Inr (Some zip_filepath), w1) \<Rightarrow>
          (case extract_zip_file e zip_filepath w1 of
             (Inl x, w2) \<Rightarrow> (Inl x, w2)
           | (Inr _, w2) \<Rightarrow> (Inr (), w2)))"

text \<open>The loop \<^verbatim>\<open>for uri in download_uris\<close> of \<^verbatim>\<open>main_sync\<close>.\<close>

fun for_uris :: "env \<Rightarrow> path \<Rightarrow> string list \<Rightarrow> world \<Rightarrow> (exn + unit) \<times> world" where
  "for_uris e downloads_dir [] w = (Inr (), w)"
| "for_uris e downloads_dir (uri # uris) w =
     (case download_and_extract_sync e uri downloads_dir w of
        (Inl x, w1) \<Rightarrow> (Inl x, w1)
      | (Inr _, w1) \<Rightarrow> for_uris e downloads_dir uris w1)"

definition main_sync :: "env \<Rightarrow> world \<Rightarrow> (exn + unit) \<times> world" where
  "main_sync e w =
     (let w1 = emit (Print StartingSync) w
      in case create_downloads_directory e w1 of
           (Inl x, w2) \<Rightarrow> (Inl x, w2)
         | (Inr downloads_dir, w2) \<Rightarrow>
             (case for_uris e downloads_dir download_uris w2 of
                (Inl x, w3) \<Rightarrow> (Inl x, w3)
              | (Inr _, w3) \<Rightarrow> (Inr (), emit (Print SyncCompleted) w3)))"

subsection \<open>The cooperative fetcher\<close>

text \<open>
  One task of the cooperative strategy, run on its own: the model follows the code of the
  coroutine and leaves the interleaving with other tasks out. \<^verbatim>\<open>raise_for_status()\<close> of
  aiohttp raises for every status from 400 on; \<^verbatim>\<open>iter_chunked(n)\<close> yields pieces of at most
  \<open>n\<close> bytes: which pieces is the environment's answer, as for the blocking fetcher.
\<close>

definition aiohttp_raise_for_status :: "nat \<Rightarrow> bool" where
  "aiohttp_raise_for_status status = (400 \<le> status)"

definition iter_chunked :: "(nat \<Rightarrow> bytes list) \<Rightarrow> nat \<Rightarrow> bytes list" where
  "iter_chunked body n = body n"

definition download_file_async_try ::
  "env \<Rightarrow> string \<Rightarrow> path \<Rightarrow> world \<Rightarrow> (exn + path) \<times> world" where
  "download_file_async_try e uri downloads_dir w =
     (let filename = extract_filename_from_uri uri;
          filepath = pjoin downloads_dir filename;
          w1 = emit (Print (Downloading filename)) w;
          w2 = emit (Session_get uri 60) w1
      in case http_get e uri 60 of
           TransportError \<Rightarrow> (Inl ClientError, w2)
         | Response status body broken \<Rightarrow>
             if aiohttp_raise_for_status status then (Inl ClientError, w2)
             else if write_fails e filepath then (Inl OSError, w2)
             else
               let w3 = write_chunks filepath (iter_chunked body 8192) (open_wb filepath w2)
               in if broken then (Inl ClientError, w3)
                  else (Inr filepath, emit (Print (Downloaded filename)) w3))"

text \<open>\<^verbatim>\<open>except Exception\<close>: every exception of the block but \<^verbatim>\<open>KeyboardInterrupt\<close>.\<close>

definition download_file_async ::
  "env \<Rightarrow> string \<Rightarrow> path \<Rightarrow> world \<Rightarrow> (exn + path option) \<times> world" where
  "download_file_async e uri downloads_dir w =
     (case download_file_async_try e uri downloads_dir w of
        (Inr filepath, w') \<Rightarrow> (Inr (Some filepath), w')
      | (Inl x, w') \<Rightarrow>
          if is_Exception x then (Inr None, emit (Print (FailedDownload uri x)) w')
          else (Inl x, w'))"

text \<open>The task of one locator: an exception of the extraction, run in the executor, is
  raised where its result is awaited.\<close>

definition download_and_extract_async ::
  "env \<Rightarrow> string \<Rightarrow> path \<Rightarrow> world \<Rightarrow> (exn + unit) \<times> world" where
  "download_and_extract_async e uri downloads_dir w =
     (case download_file_async e uri downloads_dir w of
        (Inl x, w1) \<Rightarrow> (Inl x, w1)
      | (Inr None, w1) \<Rightarrow> (Inr (), w1)
      | (Inr (Some zip_filepath), w1) \<Rightarrow>
          (case extract_zip_file e zip_filepath w1 of
             (Inl x, w2) \<Rightarrow> (Inl x, w2)
           | (Inr _, w2) \<Rightarrow> (Inr (), w2)))"

subsection \<open>The pooled orchestrator\<close>

text \<open>
  The units of a concurrent orchestrator, one for each locator, in the order of submission:
  a unit is pending until it is run, then finished with what it returned or raised, or it is
  cancelled before it has finished.
\<close>

datatype future_state = Pending | Finished "exn + unit" | Cancelled

text \<open>
  The order in which the units are run is the environment's: the indices the schedule names
  first, each once, then the units it does not name, in the order of submission. The bound
  of three workers restricts the orders that can occur; the model allows every order. The
  model runs a unit in one step: the steps of two units are not interleaved.
\<close>

definition run_order :: "nat \<Rightarrow> nat list \<Rightarrow> nat list" where
  "run_order n sched =
     remdups (filter (\<lambda>i. i < n) sched) @ filter (\<lambda>i. i \<notin> set sched) [0..<n]"

text \<open>The worker threads run the units \<^verbatim>\<open>download_and_extract_sync(uri, downloads_dir)\<close>; an
  exception of a unit is kept in its future.\<close>

fun pool_run ::
  "env \<Rightarrow> path \<Rightarrow> string list \<Rightarrow> nat list \<Rightarrow> future_state list \<Rightarrow> world
     \<Rightarrow> future_state list \<times> world" where
  "pool_run e downloads_dir uris [] futures w = (futures, w)"
| "pool_run e downloads_dir uris (i # order) futures w =
     (if i < length uris then
        (case download_and_extract_sync e (uris ! i) downloads_dir w of
           (r, w1) \<Rightarrow> pool_run e downloads_dir uris order (futures[i := Finished r]) w1)
      else pool_run e downloads_dir uris order futures w)"

text \<open>
  \<^verbatim>\<open>with ThreadPoolExecutor(max_workers=3) as executor\<close>: the loop submits one unit for each
  locator, in list order; leaving the block, by return or by an exception, calls
  \<^verbatim>\<open>shutdown(wait=True)\<close>, which lets every submitted unit run before it returns and cancels
  none. The result is the futures as they are when the block is left.
\<close>

definition thread_pool ::
  "env \<Rightarrow> path \<Rightarrow> string list \<Rightarrow> world \<Rightarrow> future_state list \<times> world" where
  "thread_pool e downloads_dir uris w =
     pool_run e downloads_dir uris (run_order (length uris) (schedule e))
       (map (\<lambda>uri. Pending) uris) w"

text \<open>\<^verbatim>\<open>for future in futures: future.result()\<close>: the first future, in the order of
  submission, that holds an exception raises it.\<close>

fun first_exception :: "future_state list \<Rightarrow> exn option" where
  "first_exception [] = None"
| "first_exception (Finished (Inl x) # futures) = Some x"
| "first_exception (future # futures) = first_exception futures"

definition main_threaded :: "env \<Rightarrow> world \<Rightarrow> (exn + unit) \<times> world" where
  "main_threaded e w =
     (let w1 = emit (Print StartingThreaded) w
      in case create_downloads_directory e w1 of
           (Inl x, w2) \<Rightarrow> (Inl x, w2)
         | (Inr downloads_dir, w2) \<Rightarrow>
             (case thread_pool e downloads_dir download_uris w2 of
                (futures, w3) \<Rightarrow>
                  (case first_exception futures of
                     Some x \<Rightarrow> (Inl x, w3)
                   | None \<Rightarrow> (Inr (), emit (Print ThreadedCompleted) w3))))"

subsection \<open>The cooperative orchestrator\<close>

text \<open>When \<^verbatim>\<open>asyncio.run\<close> ends, the tasks that have not finished are cancelled.\<close>

definition cancel_pending :: "future_state list \<Rightarrow> future_state list" where
  "cancel_pending futures = map (\<lambda>f. if f = Pending then Cancelled else f) futures"

text \<open>
  \<^verbatim>\<open>await asyncio.gather(*tasks)\<close> without \<^verbatim>\<open>return_exceptions\<close>: the tasks
  \<^verbatim>\<open>download_and_extract_async(session, uri, downloads_dir)\<close> run on the event loop; the
  first exception that a task raises is raised from \<^verbatim>\<open>gather\<close> at once, \<^verbatim>\<open>main_async\<close> ends
  with it, and \<^verbatim>\<open>asyncio.run\<close> cancels the tasks that have not finished (the cancellation
  is no \<^verbatim>\<open>Exception\<close> and passes the handlers of the task).
\<close>

fun gather_run ::
  "env \<Rightarrow> path \<Rightarrow> string list \<Rightarrow> nat list \<Rightarrow> future_state list \<Rightarrow> world
     \<Rightarrow> (exn + unit) \<times> future_state list \<times> world" where
  "gather_run e downloads_dir uris [] futures w = (Inr (), futures, w)"
| "gather_run e downloads_dir uris (i # order) futures w =
     (if i < length uris then
        (case download_and_extract_async e (uris ! i) downloads_dir w of
           (Inl x, w1) \<Rightarrow> (Inl x, cancel_pending (futures[i := Finished (Inl x)]), w1)
         | (Inr u, w1) \<Rightarrow>
             gather_run e downloads_dir uris order (futures[i := Finished (Inr u)]) w1)
      else gather_run e downloads_dir uris order futures w)"

text \<open>The loop of \<^verbatim>\<open>main_async\<close> makes one task for each locator, in list order.\<close>

definition event_loop ::
  "env \<Rightarrow> path \<Rightarrow> string list \<Rightarrow> world \<Rightarrow> (exn + unit) \<times> future_state list \<times> world" where
  "event_loop e downloads_dir uris w =
     gather_run e downloads_dir uris (run_order (length uris) (schedule e))
       (map (\<lambda>uri. Pending) uris) w"

definition main_async :: "env \<Rightarrow> world \<Rightarrow> (exn + unit) \<times> world" where
  "main_async e w =
     (let w1 = emit (Print StartingAsync) w
      in case create_downloads_directory e w1 of
           (Inl x, w2) \<Rightarrow> (Inl x, w2)
         | (Inr downloads_dir, w2) \<Rightarrow>
             (case event_loop e downloads_dir download_uris w2 of
                (Inl x, futures, w3) \<Rightarrow> (Inl x, w3)
              | (Inr u, futures, w3) \<Rightarrow> (Inr (), emit (Print AsyncCompleted) w3)))"

subsection \<open>The entry point\<close>

text \<open>
  A line read by \<^verbatim>\<open>input\<close> is a Python string, a list of Unicode code points.
  \<^verbatim>\<open>str.strip()\<close> removes at both ends the characters for which \<^verbatim>\<open>str.isspace\<close> holds:
  U+0009 to U+000D, U+001C to U+0020, U+0085, U+00A0, U+1680, U+2000 to U+200A, U+2028,
  U+2029, U+202F, U+205F and U+3000.
\<close>

definition is_space :: "nat \<Rightarrow> bool" where
  "is_space c =
     (c \<in> {9, 10, 11, 12, 13, 28, 29, 30, 31, 32, 133, 160, 5760,
            8232, 8233, 8239, 8287, 12288}
      \<or> (8192 \<le> c \<and> c \<le> 8202))"

definition strip :: "nat list \<Rightarrow> nat list" where
  "strip s = rev (dropWhile is_space (rev (dropWhile is_space s)))"

text \<open>The code points of a string literal of the source.\<close>

definition code_points :: "string \<Rightarrow> nat list" where
  "code_points s = map of_char s"

text \<open>The four lines of the menu and the prompt of \<^verbatim>\<open>input\<close>.\<close>

definition show_menu :: "world \<Rightarrow> world" where
  "show_menu w =
     emit (Print EnterChoice) (emit (Print MenuAsync) (emit (Print MenuThreaded)
       (emit (Print MenuSync) (emit (Print ChooseMethod) w))))"

text \<open>The body of the \<^verbatim>\<open>try\<close> of \<^verbatim>\<open>main\<close>.\<close>

definition main_try :: "env \<Rightarrow> world \<Rightarrow> (exn + unit) \<times> world" where
  "main_try e w =
     (if \<not> stdin_isatty e then main_sync e (emit (Print NonInteractiveMode) w)
      else
        let w1 = show_menu w
        in case stdin_line e of
             Inl x \<Rightarrow> (Inl x, w1)
           | Inr line \<Rightarrow>
               (let choice = strip line
                in if choice = code_points ''2'' then main_threaded e w1
                   else if choice = code_points ''3'' then main_async e w1
                   else main_sync e w1))"

text \<open>\<^verbatim>\<open>except (EOFError, KeyboardInterrupt)\<close> around the whole body: what becomes of the
  outcome of the body.\<close>

definition main_except :: "env \<Rightarrow> (exn + unit) \<times> world \<Rightarrow> (exn + unit) \<times> world" where
  "main_except e r =
     (case r of
        (Inl x, w') \<Rightarrow>
          if x = EOFError \<or> x = KeyboardInterrupt
          then main_sync e (emit (Print NoInputAvailable) w')
          else (Inl x, w')
      | (Inr u, w') \<Rightarrow> (Inr u, w'))"

definition main :: "env \<Rightarrow> world \<Rightarrow> (exn + unit) \<times> world" where
  "main e w = main_except e (main_try e w)"

subsection \<open>Observations on a trace\<close>

text \<open>The chunks of the \<^verbatim>\<open>f.write\<close> calls of a trace, in order, and its requests.\<close>

fun written_chunks :: "event list \<Rightarrow> bytes list" where
  "written_chunks [] = []"
| "written_chunks (Write p chunk # evs) = chunk # written_chunks evs"
| "written_chunks (ev # evs) = written_chunks evs"

fun is_request :: "event \<Rightarrow> bool" where
  "is_request (Requests_get uri s t) = True"
| "is_request (Session_get uri t) = True"
| "is_request ev = False"

definition requests_of :: "event list \<Rightarrow> event list" where
  "requests_of evs = filter is_request evs"

text \<open>The records of an outcome: the line of a finished extraction, and the two lines of a
  failure.\<close>

fun is_extracted_record :: "event \<Rightarrow> bool" where
  "is_extracted_record (Print (Extracted n)) = True"
| "is_extracted_record ev = False"

fun is_failure_record :: "event \<Rightarrow> bool" where
  "is_failure_record (Print (FailedDownload uri x)) = True"
| "is_failure_record (Print (FailedExtract p x)) = True"
| "is_failure_record ev = False"

subsection \<open>Example worlds and environments\<close>

text \<open>An empty disk, a disk that holds one archive in the downloads directory, and one that
  holds a file there that is no archive.\<close>

definition world0 :: world where
  "world0 = \<lparr>files = Map.empty, trace = []\<rparr>"

definition world_zip :: world where
  "world_zip = \<lparr>files = [[''downloads'', ''x.zip''] \<mapsto> ''PK''], trace = []\<rparr>"

definition world_bad :: world where
  "world_bad = \<lparr>files = [[''downloads'', ''x.zip''] \<mapsto> ''<html>''], trace = []\<rparr>"

text \<open>Every request is answered with status 200 and the bytes \<open>PK\<close> in one piece, which the
  zip library reads as an archive of \<open>a.csv\<close> and \<open>b.csv\<close> and extracts each under its name;
  nothing fails; standard input is no terminal; the units run in the order of submission.\<close>

definition env_ok :: env where
  "env_ok = \<lparr>http_get = (\<lambda>uri t. Response 200 (\<lambda>n. [''PK'']) False),
             zip_parse = (\<lambda>b. if b = ''PK'' then Some [(''a.csv'', ''1''), (''b.csv'', ''2'')] else None),
             zip_extract = (\<lambda>d member fs. (None, [(d @ [fst member], snd member)])),
             write_fails = (\<lambda>p. False),
             remove_fails = (\<lambda>p. False),
             mkdir_fails = False,
             stdin_isatty = False,
             stdin_line = Inl EOFError,
             schedule = []\<rparr>"

text \<open>The same, with archives that hold no entry.\<close>

definition env_empty_zip :: env where
  "env_empty_zip = env_ok\<lparr>zip_parse := (\<lambda>b. if b = ''PK'' then Some [] else None)\<rparr>"


text \<open>The same as \<open>env_ok\<close>, with no file writable (a read-only or full disk).\<close>

definition env_readonly :: env where
  "env_readonly = env_ok\<lparr>write_fails := (\<lambda>p. True),
                          zip_extract := (\<lambda>d member fs. (Some CannotWrite, []))\<rparr>"

text \<open>The same as \<open>env_ok\<close>, with a downloads directory that cannot be created.\<close>

definition env_no_mkdir :: env where
  "env_no_mkdir = env_ok\<lparr>mkdir_fails := True\<rparr>"


text \<open>Servers that answer 404 with an error page, and 304 with an empty body.\<close>

definition env_404 :: env where
  "env_404 = env_ok\<lparr>http_get := (\<lambda>uri t. Response 404 (\<lambda>n. [''Not Found'']) False)\<rparr>"

definition env_304 :: env where
  "env_304 = env_ok\<lparr>http_get := (\<lambda>uri t. Response 304 (\<lambda>n. []) False)\<rparr>"

text \<open>A server whose body reaches the program in two pieces of two bytes (a chunked
  transfer).\<close>

definition env_pieces :: env where
  "env_pieces = env_ok\<lparr>http_get := (\<lambda>uri t. Response 200 (\<lambda>n. [''PK'', ''zz'']) False)\<rparr>"


section \<open>Properties\<close>

subsection \<open>Shared lemmas\<close>

subsubsection \<open>Removal\<close>

lemma files_emit [simp]: "files (emit ev w) = files w"
  by (simp add: emit_def)

lemma trace_emit [simp]: "trace (emit ev w) = trace w @ [ev]"
  by (simp add: emit_def)

lemma os_remove_ok:
  "os_remove e p w = (Inr u, w') \<Longrightarrow> files w' p = None"
  by (auto simp: os_remove_def split: if_splits)

lemma extract_zip_file_try_ok:
  "extract_zip_file_try e p w = (Inr ns, w') \<Longrightarrow> files w' p = None"
  by (auto simp: extract_zip_file_try_def Let_def dest: os_remove_ok
           split: option.splits prod.splits sum.splits)

subsubsection \<open>Extraction\<close>

lemma put_files_keeps: "fs q \<noteq> None \<Longrightarrow> put_files written fs q \<noteq> None"
  by (induction written fs rule: put_files.induct) auto

lemma extractall_trace: "extractall e d ms w = (r, w1) \<Longrightarrow> trace w1 = trace w"
  by (induction ms arbitrary: w) (auto split: prod.splits option.splits)

lemma extractall_keeps:
  "extractall e d ms w = (r, w1) \<Longrightarrow> files w q \<noteq> None \<Longrightarrow> files w1 q \<noteq> None"
proof (induction ms arbitrary: w)
  case Nil
  then show ?case by simp
next
  case (Cons m ms)
  obtain f written where z: "zip_extract e d m (files w) = (f, written)"
    by (cases "zip_extract e d m (files w)")
  let ?w = "w\<lparr>files := put_files written (files w)\<rparr>"
  have keep: "files ?w q \<noteq> None"
    using Cons.prems(2) by (simp add: put_files_keeps)
  show ?case
  proof (cases f)
    case None
    with z Cons.prems(1) have "extractall e d ms ?w = (r, w1)" by simp
    from this keep show ?thesis by (rule Cons.IH)
  next
    case (Some failure)
    with z Cons.prems(1) have "w1 = ?w" by simp
    with keep show ?thesis by simp
  qed
qed

lemma extractall_raise: "extractall e d ms w = (Inl x, w1) \<Longrightarrow> is_Exception x"
proof (induction ms arbitrary: w)
  case Nil
  then show ?case by simp
next
  case (Cons m ms)
  obtain f written where z: "zip_extract e d m (files w) = (f, written)"
    by (cases "zip_extract e d m (files w)")
  show ?case
  proof (cases f)
    case None
    with z Cons.prems have
      "extractall e d ms (w\<lparr>files := put_files written (files w)\<rparr>) = (Inl x, w1)"
      by simp
    then show ?thesis by (rule Cons.IH)
  next
    case (Some failure)
    with z Cons.prems have "x = raised_by failure" by simp
    then show ?thesis by (cases failure) simp_all
  qed
qed

lemma extract_zip_file_try_valid:
  assumes "files w p = Some content" and "zip_parse e content = Some entries"
    and "extractall e (parent p) entries w = (Inr (), w1)"
    and "\<not> remove_fails e p"
  shows "extract_zip_file_try e p w =
    (Inr (map fst entries), emit (Print (Extracted (name p))) (w1\<lparr>files := (files w1)(p := None)\<rparr>))"
proof -
  have "files w1 p \<noteq> None"
    using extractall_keeps [OF assms(3), of p] assms(1) by simp
  then have "os_remove e p w1 = (Inr (), w1\<lparr>files := (files w1)(p := None)\<rparr>)"
    using assms(4) by (simp add: os_remove_def)
  then show ?thesis
    using assms(1,2,3) by (simp add: extract_zip_file_try_def)
qed

subsubsection \<open>The outcomes of an extraction\<close>

lemma extract_zip_file_try_raise:
  assumes "extract_zip_file_try e p w = (Inl x, w1)"
  shows "is_Exception x \<and> trace w1 = trace w \<and> (files w p \<noteq> None \<longrightarrow> files w1 p \<noteq> None)"
proof (cases "files w p")
  case None
  with assms show ?thesis by (auto simp: extract_zip_file_try_def)
next
  case (Some content)
  show ?thesis
  proof (cases "zip_parse e content")
    case None
    with Some assms show ?thesis by (auto simp: extract_zip_file_try_def)
  next
    case Some2: (Some entries)
    obtain r w2 where run: "extractall e (parent p) entries w = (r, w2)"
      by (cases "extractall e (parent p) entries w")
    note tr = extractall_trace [OF run] and keep = extractall_keeps [OF run, of p]
    show ?thesis
    proof (cases r)
      case (Inl y)
      with run Some Some2 assms tr keep extractall_raise [of e "parent p" entries w y w2]
      show ?thesis by (auto simp: extract_zip_file_try_def)
    next
      case (Inr u)
      with run Some Some2 assms tr keep show ?thesis
        by (auto simp: extract_zip_file_try_def os_remove_def split: if_splits)
    qed
  qed
qed

lemma extract_zip_file_try_trace:
  "extract_zip_file_try e p w = (Inr ns, w1) \<Longrightarrow> trace w1 = trace w @ [Print (Extracted (name p))]"
  by (auto simp: extract_zip_file_try_def os_remove_def dest: extractall_trace
      split: option.splits prod.splits sum.splits if_splits)

text \<open>The three ways an extraction can end.\<close>

lemma extract_zip_file_outcome:
  "(\<exists>ns w'. extract_zip_file e p w = (Inr (Some ns), w')
        \<and> trace w' = trace w @ [Print (Extracted (name p))])
   \<or> (\<exists>x w'. extract_zip_file e p w = (Inr None, w')
        \<and> trace w' = trace w @ [Print (FailedExtract p x)])
   \<or> (\<exists>x w'. extract_zip_file e p w = (Inl OSError, w')
        \<and> trace w' = trace w @ [Print (FailedExtract p x)] \<and> remove_fails e p)"
proof (cases "extract_zip_file_try e p w")
  case (Pair r w1)
  show ?thesis
  proof (cases r)
    case (Inr ns)
    with Pair extract_zip_file_try_trace [of e p w ns w1] show ?thesis
      by (simp add: extract_zip_file_def)
  next
    case (Inl x)
    with Pair extract_zip_file_try_raise [of e p w x w1]
    have "is_Exception x" and "trace w1 = trace w" by simp_all
    with Pair Inl show ?thesis
      by (auto simp: extract_zip_file_def Let_def os_remove_def)
  qed
qed

lemma extract_zip_file_removable:
  "\<not> remove_fails e p \<Longrightarrow> \<exists>r w'. extract_zip_file e p w = (Inr r, w')"
  using extract_zip_file_outcome [of e p w] by auto

lemma extract_zip_file_returned:
  assumes "extract_zip_file e p w = (Inr r, w')"
  shows "files w' p = None"
proof (cases "extract_zip_file_try e p w")
  case (Pair res w1)
  show ?thesis
  proof (cases res)
    case (Inr ns)
    with Pair assms have "w' = w1"
      by (simp add: extract_zip_file_def)
    with Pair Inr show ?thesis
      by (auto dest: extract_zip_file_try_ok)
  next
    case (Inl x)
    with Pair assms show ?thesis
      by (auto simp: extract_zip_file_def Let_def dest: os_remove_ok
               split: if_splits prod.splits sum.splits)
  qed
qed

lemma extract_zip_file_invalid:
  assumes "files w p = Some content" and "zip_parse e content = None"
    and "\<not> remove_fails e p"
  shows "extract_zip_file e p w =
    (Inr None, (emit (Print (FailedExtract p BadZipFile)) w)\<lparr>files := (files w)(p := None)\<rparr>)"
  using assms
  by (simp add: extract_zip_file_def extract_zip_file_try_def Let_def os_remove_def)

subsubsection \<open>Chunks and traces\<close>

lemma trace_write_chunks: "trace (write_chunks p cs w) = trace w @ map (Write p) cs"
  by (induction cs arbitrary: w) (simp_all add: f_write_def)

lemma files_write_chunks:
  "files w p = Some old \<Longrightarrow> files (write_chunks p cs w) = (files w)(p \<mapsto> old @ concat cs)"
  by (induction cs arbitrary: w old) (simp_all add: f_write_def map_upd_triv)

lemma written_chunks_append: "written_chunks (xs @ ys) = written_chunks xs @ written_chunks ys"
  by (induction xs rule: written_chunks.induct) simp_all

lemma written_chunks_Write: "written_chunks (map (Write p) cs) = cs"
  by (induction cs) simp_all

lemma requests_of_Write: "requests_of (map (Write p) cs) = []"
  by (induction cs) (simp_all add: requests_of_def)

lemma requests_of_append: "requests_of (xs @ ys) = requests_of xs @ requests_of ys"
  by (simp add: requests_of_def)

lemma requests_of_simps [simp]:
  "requests_of [] = []"
  "requests_of (Print m # evs) = requests_of evs"
  "requests_of (Requests_get u s t # evs) = Requests_get u s t # requests_of evs"
  "requests_of (Session_get u t # evs) = Session_get u t # requests_of evs"
  by (simp_all add: requests_of_def)

text \<open>The five ways a blocking fetch can go.\<close>

lemma download_file_sync_transport:
  assumes "http_get e uri 30 = TransportError"
  shows "download_file_sync e uri d w =
    (Inr None, emit (Print (FailedDownload uri RequestException))
       (emit (Requests_get uri True 30) (emit (Print (Downloading (extract_filename_from_uri uri))) w)))"
  using assms by (simp add: download_file_sync_def download_file_sync_try_def Let_def)

lemma download_file_sync_status:
  assumes "http_get e uri 30 = Response st body b" and "requests_raise_for_status st"
  shows "download_file_sync e uri d w =
    (Inr None, emit (Print (FailedDownload uri RequestException))
       (emit (Requests_get uri True 30) (emit (Print (Downloading (extract_filename_from_uri uri))) w)))"
  using assms by (simp add: download_file_sync_def download_file_sync_try_def Let_def)

lemma download_file_sync_unwritable:
  assumes "http_get e uri 30 = Response st body b" and "\<not> requests_raise_for_status st"
    and "write_fails e (pjoin d (extract_filename_from_uri uri))"
  shows "download_file_sync e uri d w =
    (Inl OSError,
       emit (Requests_get uri True 30) (emit (Print (Downloading (extract_filename_from_uri uri))) w))"
  using assms by (simp add: download_file_sync_def download_file_sync_try_def Let_def)

lemma download_file_sync_broken:
  assumes "http_get e uri 30 = Response st body True" and "\<not> requests_raise_for_status st"
    and "\<not> write_fails e (pjoin d (extract_filename_from_uri uri))"
  shows "download_file_sync e uri d w =
    (Inr None, emit (Print (FailedDownload uri RequestException))
       (write_chunks (pjoin d (extract_filename_from_uri uri)) (iter_content body 8192)
         (open_wb (pjoin d (extract_filename_from_uri uri))
           (emit (Requests_get uri True 30)
             (emit (Print (Downloading (extract_filename_from_uri uri))) w)))))"
  using assms by (simp add: download_file_sync_def download_file_sync_try_def Let_def)

lemma download_file_sync_complete:
  assumes "http_get e uri 30 = Response st body False" and "\<not> requests_raise_for_status st"
    and "\<not> write_fails e (pjoin d (extract_filename_from_uri uri))"
  shows "download_file_sync e uri d w =
    (Inr (Some (pjoin d (extract_filename_from_uri uri))),
     emit (Print (Downloaded (extract_filename_from_uri uri)))
       (write_chunks (pjoin d (extract_filename_from_uri uri)) (iter_content body 8192)
         (open_wb (pjoin d (extract_filename_from_uri uri))
           (emit (Requests_get uri True 30)
             (emit (Print (Downloading (extract_filename_from_uri uri))) w)))))"
  using assms by (simp add: download_file_sync_def download_file_sync_try_def Let_def)

lemma download_file_sync_cases:
  obtains (transport) "http_get e uri 30 = TransportError"
  | (status) st body b where "http_get e uri 30 = Response st body b" "requests_raise_for_status st"
  | (unwritable) st body b where "http_get e uri 30 = Response st body b"
      "\<not> requests_raise_for_status st" "write_fails e (pjoin d (extract_filename_from_uri uri))"
  | (broken) st body where "http_get e uri 30 = Response st body True"
      "\<not> requests_raise_for_status st" "\<not> write_fails e (pjoin d (extract_filename_from_uri uri))"
  | (complete) st body where "http_get e uri 30 = Response st body False"
      "\<not> requests_raise_for_status st" "\<not> write_fails e (pjoin d (extract_filename_from_uri uri))"
  by (cases "http_get e uri 30") auto

lemma trace_open_wb [simp]: "trace (open_wb p w) = trace w"
  by (simp add: open_wb_def)

lemma download_file_sync_trace:
  "\<exists>cs tl. trace (snd (download_file_sync e uri d w)) =
      trace w @ [Print (Downloading (extract_filename_from_uri uri)), Requests_get uri True 30]
        @ map (Write (pjoin d (extract_filename_from_uri uri))) cs @ map Print tl
    \<and> (cs = [] \<or> (\<exists>st body b. http_get e uri 30 = Response st body b \<and> cs = iter_content body 8192))"
proof (cases rule: download_file_sync_cases [where e = e and uri = uri and d = d])
  case transport
  show ?thesis
    by (rule exI [of _ "[]"], rule exI [of _ "[FailedDownload uri RequestException]"])
       (simp add: download_file_sync_transport [OF transport])
next
  case (status st body b)
  show ?thesis
    by (rule exI [of _ "[]"], rule exI [of _ "[FailedDownload uri RequestException]"])
       (simp add: download_file_sync_status [OF status])
next
  case (unwritable st body b)
  show ?thesis
    by (rule exI [of _ "[]"], rule exI [of _ "[]"])
       (simp add: download_file_sync_unwritable [OF unwritable])
next
  case (broken st body)
  show ?thesis
    by (rule exI [of _ "iter_content body 8192"],
        rule exI [of _ "[FailedDownload uri RequestException]"])
       (auto simp: download_file_sync_broken [OF broken] broken(1) trace_write_chunks)
next
  case (complete st body)
  show ?thesis
    by (rule exI [of _ "iter_content body 8192"],
        rule exI [of _ "[Downloaded (extract_filename_from_uri uri)]"])
       (auto simp: download_file_sync_complete [OF complete] complete(1) trace_write_chunks)
qed

text \<open>The five ways a cooperative fetch can go.\<close>

lemma download_file_async_transport:
  assumes "http_get e uri 60 = TransportError"
  shows "download_file_async e uri d w =
    (Inr None, emit (Print (FailedDownload uri ClientError))
       (emit (Session_get uri 60) (emit (Print (Downloading (extract_filename_from_uri uri))) w)))"
  using assms by (simp add: download_file_async_def download_file_async_try_def Let_def)

lemma download_file_async_status:
  assumes "http_get e uri 60 = Response st body b" and "aiohttp_raise_for_status st"
  shows "download_file_async e uri d w =
    (Inr None, emit (Print (FailedDownload uri ClientError))
       (emit (Session_get uri 60) (emit (Print (Downloading (extract_filename_from_uri uri))) w)))"
  using assms by (simp add: download_file_async_def download_file_async_try_def Let_def)

lemma download_file_async_unwritable:
  assumes "http_get e uri 60 = Response st body b" and "\<not> aiohttp_raise_for_status st"
    and "write_fails e (pjoin d (extract_filename_from_uri uri))"
  shows "download_file_async e uri d w =
    (Inr None, emit (Print (FailedDownload uri OSError))
       (emit (Session_get uri 60) (emit (Print (Downloading (extract_filename_from_uri uri))) w)))"
  using assms by (simp add: download_file_async_def download_file_async_try_def Let_def)

lemma download_file_async_broken:
  assumes "http_get e uri 60 = Response st body True" and "\<not> aiohttp_raise_for_status st"
    and "\<not> write_fails e (pjoin d (extract_filename_from_uri uri))"
  shows "download_file_async e uri d w =
    (Inr None, emit (Print (FailedDownload uri ClientError))
       (write_chunks (pjoin d (extract_filename_from_uri uri)) (iter_chunked body 8192)
         (open_wb (pjoin d (extract_filename_from_uri uri))
           (emit (Session_get uri 60)
             (emit (Print (Downloading (extract_filename_from_uri uri))) w)))))"
  using assms
  by (simp add: download_file_async_def download_file_async_try_def Let_def)

lemma download_file_async_complete:
  assumes "http_get e uri 60 = Response st body False" and "\<not> aiohttp_raise_for_status st"
    and "\<not> write_fails e (pjoin d (extract_filename_from_uri uri))"
  shows "download_file_async e uri d w =
    (Inr (Some (pjoin d (extract_filename_from_uri uri))),
     emit (Print (Downloaded (extract_filename_from_uri uri)))
       (write_chunks (pjoin d (extract_filename_from_uri uri)) (iter_chunked body 8192)
         (open_wb (pjoin d (extract_filename_from_uri uri))
           (emit (Session_get uri 60)
             (emit (Print (Downloading (extract_filename_from_uri uri))) w)))))"
  using assms
  by (simp add: download_file_async_def download_file_async_try_def Let_def)

lemma download_file_async_cases:
  obtains (transport) "http_get e uri 60 = TransportError"
  | (status) st body b where "http_get e uri 60 = Response st body b" "aiohttp_raise_for_status st"
  | (unwritable) st body b where "http_get e uri 60 = Response st body b"
      "\<not> aiohttp_raise_for_status st" "write_fails e (pjoin d (extract_filename_from_uri uri))"
  | (broken) st body where "http_get e uri 60 = Response st body True"
      "\<not> aiohttp_raise_for_status st" "\<not> write_fails e (pjoin d (extract_filename_from_uri uri))"
  | (complete) st body where "http_get e uri 60 = Response st body False"
      "\<not> aiohttp_raise_for_status st" "\<not> write_fails e (pjoin d (extract_filename_from_uri uri))"
  by (cases "http_get e uri 60") auto

lemma download_file_async_trace:
  "\<exists>cs tl. trace (snd (download_file_async e uri d w)) =
      trace w @ [Print (Downloading (extract_filename_from_uri uri)), Session_get uri 60]
        @ map (Write (pjoin d (extract_filename_from_uri uri))) cs @ map Print tl
    \<and> (cs = [] \<or> (\<exists>st body b. http_get e uri 60 = Response st body b \<and> cs = iter_chunked body 8192))"
proof (cases rule: download_file_async_cases [where e = e and uri = uri and d = d])
  case transport
  show ?thesis
    by (rule exI [of _ "[]"], rule exI [of _ "[FailedDownload uri ClientError]"])
       (simp add: download_file_async_transport [OF transport])
next
  case (status st body b)
  show ?thesis
    by (rule exI [of _ "[]"], rule exI [of _ "[FailedDownload uri ClientError]"])
       (simp add: download_file_async_status [OF status])
next
  case (unwritable st body b)
  show ?thesis
    by (rule exI [of _ "[]"], rule exI [of _ "[FailedDownload uri OSError]"])
       (simp add: download_file_async_unwritable [OF unwritable])
next
  case (broken st body)
  show ?thesis
    by (rule exI [of _ "iter_chunked body 8192"],
        rule exI [of _ "[FailedDownload uri ClientError]"])
       (auto simp: download_file_async_broken [OF broken] broken(1) trace_write_chunks)
next
  case (complete st body)
  show ?thesis
    by (rule exI [of _ "iter_chunked body 8192"],
        rule exI [of _ "[Downloaded (extract_filename_from_uri uri)]"])
       (auto simp: download_file_async_complete [OF complete] complete(1) trace_write_chunks)
qed

lemma written_chunks_Print: "written_chunks (map Print ms) = []"
  by (induction ms) simp_all

lemma requests_of_Print: "requests_of (map Print ms) = []"
  by (induction ms) simp_all

lemma download_file_sync_body:
  assumes "fst (download_file_sync e uri d w) = Inr (Some p)"
  shows "\<exists>st body. http_get e uri 30 = Response st body False
    \<and> \<not> requests_raise_for_status st
    \<and> p = pjoin d (extract_filename_from_uri uri)
    \<and> files (snd (download_file_sync e uri d w)) p = Some (concat (iter_content body 8192))"
proof (cases rule: download_file_sync_cases [where e = e and uri = uri and d = d])
  case transport
  with assms show ?thesis by (simp add: download_file_sync_transport)
next
  case (status st body b)
  with assms show ?thesis by (simp add: download_file_sync_status)
next
  case (unwritable st body b)
  with assms show ?thesis by (simp add: download_file_sync_unwritable)
next
  case (broken st body)
  with assms show ?thesis by (simp add: download_file_sync_broken)
next
  case (complete st body)
  have "files (open_wb p w') p = Some []" for w' by (simp add: open_wb_def)
  from files_write_chunks [OF this] complete assms show ?thesis
    by (simp add: download_file_sync_complete)
qed

lemma download_file_async_body:
  assumes "fst (download_file_async e uri d w) = Inr (Some p)"
  shows "\<exists>st body. http_get e uri 60 = Response st body False
    \<and> \<not> aiohttp_raise_for_status st
    \<and> p = pjoin d (extract_filename_from_uri uri)
    \<and> files (snd (download_file_async e uri d w)) p = Some (concat (iter_chunked body 8192))"
proof (cases rule: download_file_async_cases [where e = e and uri = uri and d = d])
  case transport
  with assms show ?thesis by (simp add: download_file_async_transport)
next
  case (status st body b)
  with assms show ?thesis by (simp add: download_file_async_status)
next
  case (unwritable st body b)
  with assms show ?thesis by (simp add: download_file_async_unwritable)
next
  case (broken st body)
  with assms show ?thesis by (simp add: download_file_async_broken)
next
  case (complete st body)
  have "files (open_wb p w') p = Some []" for w' by (simp add: open_wb_def)
  from files_write_chunks [OF this] complete assms show ?thesis
    by (simp add: download_file_async_complete)
qed

lemma download_and_extract_sync_None:
  "fst (download_file_sync e uri d w) = Inr None \<Longrightarrow>
   download_and_extract_sync e uri d w = (Inr (), snd (download_file_sync e uri d w))"
  by (cases "download_file_sync e uri d w") (simp add: download_and_extract_sync_def)

lemma files_write_chunks_other:
  "q \<noteq> p \<Longrightarrow> files (write_chunks p cs w) q = files w q"
  by (induction cs arbitrary: w) (simp_all add: f_write_def)

text \<open>What one fetch adds to the trace: its request, and the pieces it writes.\<close>

lemma download_file_sync_events:
  "\<exists>evs. trace (snd (download_file_sync e uri d w)) = trace w @ evs
     \<and> requests_of evs = [Requests_get uri True 30]
     \<and> written_chunks evs =
         (case http_get e uri 30 of
            TransportError \<Rightarrow> []
          | Response st body broken \<Rightarrow>
              if (400 \<le> st \<and> st < 600) \<or> write_fails e (pjoin d (extract_filename_from_uri uri))
              then [] else iter_content body 8192)"
proof (cases rule: download_file_sync_cases [where e = e and uri = uri and d = d])
  case transport
  show ?thesis
    by (rule exI [of _ "[Print (Downloading (extract_filename_from_uri uri)),
          Requests_get uri True 30, Print (FailedDownload uri RequestException)]"])
       (simp add: download_file_sync_transport [OF transport] transport)
next
  case (status st body b)
  show ?thesis
    by (rule exI [of _ "[Print (Downloading (extract_filename_from_uri uri)),
          Requests_get uri True 30, Print (FailedDownload uri RequestException)]"])
       (use status in \<open>simp add: download_file_sync_status [OF status] requests_raise_for_status_def\<close>)
next
  case (unwritable st body b)
  show ?thesis
    by (rule exI [of _ "[Print (Downloading (extract_filename_from_uri uri)),
          Requests_get uri True 30]"])
       (use unwritable in \<open>simp add: download_file_sync_unwritable [OF unwritable]\<close>)
next
  case (broken st body)
  show ?thesis
    by (rule exI [of _ "[Print (Downloading (extract_filename_from_uri uri)),
          Requests_get uri True 30]
          @ map (Write (pjoin d (extract_filename_from_uri uri))) (iter_content body 8192)
          @ [Print (FailedDownload uri RequestException)]"])
       (use broken in \<open>auto simp: download_file_sync_broken [OF broken] trace_write_chunks
          requests_of_append requests_of_Write written_chunks_append written_chunks_Write
          requests_raise_for_status_def\<close>)
next
  case (complete st body)
  show ?thesis
    by (rule exI [of _ "[Print (Downloading (extract_filename_from_uri uri)),
          Requests_get uri True 30]
          @ map (Write (pjoin d (extract_filename_from_uri uri))) (iter_content body 8192)
          @ [Print (Downloaded (extract_filename_from_uri uri))]"])
       (use complete in \<open>auto simp: download_file_sync_complete [OF complete] trace_write_chunks
          requests_of_append requests_of_Write written_chunks_append written_chunks_Write
          requests_raise_for_status_def\<close>)
qed

lemma download_file_async_events:
  "\<exists>evs. trace (snd (download_file_async e uri d w)) = trace w @ evs
     \<and> requests_of evs = [Session_get uri 60]
     \<and> written_chunks evs =
         (case http_get e uri 60 of
            TransportError \<Rightarrow> []
          | Response st body broken \<Rightarrow>
              if 400 \<le> st \<or> write_fails e (pjoin d (extract_filename_from_uri uri))
              then [] else iter_chunked body 8192)"
proof (cases rule: download_file_async_cases [where e = e and uri = uri and d = d])
  case transport
  show ?thesis
    by (rule exI [of _ "[Print (Downloading (extract_filename_from_uri uri)),
          Session_get uri 60, Print (FailedDownload uri ClientError)]"])
       (simp add: download_file_async_transport [OF transport] transport)
next
  case (status st body b)
  show ?thesis
    by (rule exI [of _ "[Print (Downloading (extract_filename_from_uri uri)),
          Session_get uri 60, Print (FailedDownload uri ClientError)]"])
       (use status in \<open>simp add: download_file_async_status [OF status] aiohttp_raise_for_status_def\<close>)
next
  case (unwritable st body b)
  show ?thesis
    by (rule exI [of _ "[Print (Downloading (extract_filename_from_uri uri)),
          Session_get uri 60, Print (FailedDownload uri OSError)]"])
       (use unwritable in \<open>simp add: download_file_async_unwritable [OF unwritable]\<close>)
next
  case (broken st body)
  show ?thesis
    by (rule exI [of _ "[Print (Downloading (extract_filename_from_uri uri)),
          Session_get uri 60]
          @ map (Write (pjoin d (extract_filename_from_uri uri))) (iter_chunked body 8192)
          @ [Print (FailedDownload uri ClientError)]"])
       (use broken in \<open>auto simp: download_file_async_broken [OF broken] trace_write_chunks
          requests_of_append requests_of_Write written_chunks_append written_chunks_Write
          aiohttp_raise_for_status_def\<close>)
next
  case (complete st body)
  show ?thesis
    by (rule exI [of _ "[Print (Downloading (extract_filename_from_uri uri)),
          Session_get uri 60]
          @ map (Write (pjoin d (extract_filename_from_uri uri))) (iter_chunked body 8192)
          @ [Print (Downloaded (extract_filename_from_uri uri))]"])
       (use complete in \<open>auto simp: download_file_async_complete [OF complete] trace_write_chunks
          requests_of_append requests_of_Write written_chunks_append written_chunks_Write
          aiohttp_raise_for_status_def\<close>)
qed

lemma fetch_example_sync:
  "fst (download_file_sync env_pieces ''http://host/x.zip'' [''downloads''] world0) =
     Inr (Some [''downloads'', ''x.zip''])"
  by (simp add: download_file_sync_def download_file_sync_try_def Let_def env_pieces_def env_ok_def
      extract_filename_from_uri_def pjoin_def requests_raise_for_status_def)

lemma fetch_example_async:
  "fst (download_file_async env_pieces ''http://host/x.zip'' [''downloads''] world0) =
     Inr (Some [''downloads'', ''x.zip''])"
  by (simp add: download_file_async_def download_file_async_try_def Let_def env_pieces_def env_ok_def
      extract_filename_from_uri_def pjoin_def aiohttp_raise_for_status_def)

subsubsection \<open>The outcome of one locator\<close>

text \<open>The condition under which one locator cannot raise in the sequential strategy.\<close>

lemma download_and_extract_sync_returns:
  assumes "(case http_get e uri 30 of
        TransportError \<Rightarrow> True
      | Response st body broken \<Rightarrow> 400 \<le> st \<and> st < 600)
    \<or> (\<not> write_fails e (pjoin d (extract_filename_from_uri uri))
        \<and> \<not> remove_fails e (pjoin d (extract_filename_from_uri uri)))"
  shows "\<exists>w'. download_and_extract_sync e uri d w = (Inr (), w')
    \<and> requests_of (trace w') = requests_of (trace w) @ [Requests_get uri True 30]"
proof (cases rule: download_file_sync_cases [where e = e and uri = uri and d = d])
  case transport
  show ?thesis
    by (simp add: download_and_extract_sync_def download_file_sync_transport [OF transport]
        requests_of_append)
next
  case (status st body b)
  show ?thesis
    by (simp add: download_and_extract_sync_def download_file_sync_status [OF status]
        requests_of_append)
next
  case (unwritable st body b)
  with assms show ?thesis by (simp add: requests_raise_for_status_def)
next
  case (broken st body)
  show ?thesis
    by (simp add: download_and_extract_sync_def download_file_sync_broken [OF broken]
        requests_of_append trace_write_chunks requests_of_Write)
next
  case (complete st body)
  let ?p = "pjoin d (extract_filename_from_uri uri)"
  let ?w1 = "emit (Print (Downloaded (extract_filename_from_uri uri)))
       (write_chunks ?p (iter_content body 8192)
         (open_wb ?p (emit (Requests_get uri True 30)
             (emit (Print (Downloading (extract_filename_from_uri uri))) w))))"
  from complete assms have "\<not> remove_fails e ?p"
    by (auto simp: requests_raise_for_status_def)
  with extract_zip_file_outcome [of e ?p ?w1]
  obtain r w2 m where "extract_zip_file e ?p ?w1 = (Inr r, w2)" and "trace w2 = trace ?w1 @ [Print m]"
    by auto
  then show ?thesis
    by (simp add: download_and_extract_sync_def download_file_sync_complete [OF complete]
        requests_of_append trace_write_chunks requests_of_Write)
qed

lemma for_uris_returns:
  assumes "\<forall>uri \<in> set uris.
      (case http_get e uri 30 of
          TransportError \<Rightarrow> True
        | Response st body broken \<Rightarrow> 400 \<le> st \<and> st < 600)
      \<or> (\<not> write_fails e (pjoin d (extract_filename_from_uri uri))
          \<and> \<not> remove_fails e (pjoin d (extract_filename_from_uri uri)))"
  shows "\<exists>w'. for_uris e d uris w = (Inr (), w')
    \<and> requests_of (trace w') = requests_of (trace w) @ map (\<lambda>uri. Requests_get uri True 30) uris"
  using assms
proof (induction uris arbitrary: w)
  case Nil
  then show ?case by simp
next
  case (Cons uri uris)
  from Cons.prems have "(case http_get e uri 30 of
          TransportError \<Rightarrow> True
        | Response st body broken \<Rightarrow> 400 \<le> st \<and> st < 600)
      \<or> (\<not> write_fails e (pjoin d (extract_filename_from_uri uri))
          \<and> \<not> remove_fails e (pjoin d (extract_filename_from_uri uri)))"
    by simp
  from download_and_extract_sync_returns [OF this, of w] obtain w1 where
    one: "download_and_extract_sync e uri d w = (Inr (), w1)" and
    tr1: "requests_of (trace w1) = requests_of (trace w) @ [Requests_get uri True 30]"
    by blast
  from Cons.prems have "\<forall>uri \<in> set uris.
      (case http_get e uri 30 of
          TransportError \<Rightarrow> True
        | Response st body broken \<Rightarrow> 400 \<le> st \<and> st < 600)
      \<or> (\<not> write_fails e (pjoin d (extract_filename_from_uri uri))
          \<and> \<not> remove_fails e (pjoin d (extract_filename_from_uri uri)))"
    by simp
  from Cons.IH [OF this, of w1] obtain w' where
    "for_uris e d uris w1 = (Inr (), w')" and
    "requests_of (trace w') = requests_of (trace w1) @ map (\<lambda>uri. Requests_get uri True 30) uris"
    by blast
  with one tr1 show ?case by simp
qed

lemma records_of_Write [simp]:
  "filter is_extracted_record (map (Write p) cs) = []"
  "filter is_failure_record (map (Write p) cs) = []"
  by (induction cs) simp_all

lemma extracted_record_iff:
  "(\<exists>ev \<in> set evs. is_extracted_record ev) \<longleftrightarrow> filter is_extracted_record evs \<noteq> []"
  by (simp add: filter_empty_conv)

lemma empty_zip_fetch:
  "download_file_sync env_empty_zip ''http://host/x.zip'' [''downloads''] world0 =
     (Inr (Some [''downloads'', ''x.zip'']),
      \<lparr>files = [[''downloads'', ''x.zip''] \<mapsto> ''PK''],
       trace = [Print (Downloading ''x.zip''), Requests_get ''http://host/x.zip'' True 30,
                Write [''downloads'', ''x.zip''] ''PK'', Print (Downloaded ''x.zip'')]\<rparr>)"
  by (simp add: download_file_sync_def download_file_sync_try_def Let_def env_empty_zip_def
      env_ok_def world0_def extract_filename_from_uri_def pjoin_def requests_raise_for_status_def
      iter_content_def open_wb_def f_write_def emit_def)

lemma env_empty_zip_fields:
  "zip_parse env_empty_zip ''PK'' = Some []"
  "remove_fails env_empty_zip p = False"
  by (simp_all add: env_empty_zip_def env_ok_def)

subsubsection \<open>What a unit raises and requests\<close>

lemma download_file_sync_raise_OSError:
  "fst (download_file_sync e uri d w) = Inl x \<Longrightarrow> x = OSError"
  by (cases rule: download_file_sync_cases [where e = e and uri = uri and d = d])
     (simp_all add: download_file_sync_transport download_file_sync_status
        download_file_sync_unwritable download_file_sync_broken download_file_sync_complete)



lemma extract_zip_file_raise_OSError:
  "fst (extract_zip_file e p w) = Inl x \<Longrightarrow> x = OSError \<and> remove_fails e p"
  using extract_zip_file_outcome [of e p w] by auto

lemma extract_zip_file_adds_print:
  "\<exists>m. trace (snd (extract_zip_file e p w)) = trace w @ [Print m]"
  using extract_zip_file_outcome [of e p w] by auto

lemma download_and_extract_sync_raise_OSError:
  assumes "fst (download_and_extract_sync e uri d w) = Inl x"
  shows "x = OSError"
proof (cases "download_file_sync e uri d w")
  case (Pair r w1)
  show ?thesis
  proof (cases r)
    case (Inl y)
    with Pair assms download_file_sync_raise_OSError [of e uri d w y] show ?thesis
      by (simp add: download_and_extract_sync_def)
  next
    case (Inr po)
    show ?thesis
    proof (cases po)
      case None
      with Pair Inr assms show ?thesis by (simp add: download_and_extract_sync_def)
    next
      case (Some p)
      with Pair Inr assms extract_zip_file_raise_OSError [of e p w1 x] show ?thesis
        by (cases "extract_zip_file e p w1")
           (auto simp: download_and_extract_sync_def split: sum.splits)
    qed
  qed
qed


lemma download_and_extract_sync_requests:
  "\<exists>evs. trace (snd (download_and_extract_sync e uri d w)) = trace w @ evs
     \<and> requests_of evs = [Requests_get uri True 30]"
proof -
  from download_file_sync_events [of e uri d w] obtain evs where
    tr: "trace (snd (download_file_sync e uri d w)) = trace w @ evs"
    and rq: "requests_of evs = [Requests_get uri True 30]"
    by blast
  obtain r w1 where dl: "download_file_sync e uri d w = (r, w1)"
    by (cases "download_file_sync e uri d w")
  show ?thesis
  proof (cases r)
    case (Inl y)
    with dl tr rq show ?thesis by (simp add: download_and_extract_sync_def)
  next
    case (Inr po)
    show ?thesis
    proof (cases po)
      case None
      with Inr dl tr rq show ?thesis by (simp add: download_and_extract_sync_def)
    next
      case (Some p)
      from extract_zip_file_adds_print [of e p w1] obtain m where
        "trace (snd (extract_zip_file e p w1)) = trace w1 @ [Print m]" by blast
      with dl tr have "trace (snd (download_and_extract_sync e uri d w)) = trace w @ (evs @ [Print m])"
        using Some Inr
        by (cases "extract_zip_file e p w1")
           (auto simp: download_and_extract_sync_def split: sum.splits)
      moreover have "requests_of (evs @ [Print m]) = [Requests_get uri True 30]"
        using rq by (simp add: requests_of_append)
      ultimately show ?thesis by blast
    qed
  qed
qed


subsubsection \<open>The order of the units\<close>

lemma run_order_set: "set (run_order n sched) = {0..<n}"
  by (auto simp: run_order_def)

lemma run_order_distinct: "distinct (run_order n sched)"
  by (auto simp: run_order_def)

subsubsection \<open>The thread pool\<close>

lemma pool_run_inv:
  assumes "\<forall>i \<in> set order. i < length uris" and "distinct order"
    and "length futures = length uris"
  shows "\<exists>fs w' evs. pool_run e d uris order futures w = (fs, w') \<and> length fs = length uris
     \<and> (\<forall>i \<in> set order. \<exists>w0. fs ! i = Finished (fst (download_and_extract_sync e (uris ! i) d w0)))
     \<and> (\<forall>i. i \<notin> set order \<longrightarrow> fs ! i = futures ! i)
     \<and> trace w' = trace w @ evs
     \<and> requests_of evs = map (\<lambda>i. Requests_get (uris ! i) True 30) order"
  using assms
proof (induction order arbitrary: futures w)
  case Nil
  then show ?case by simp
next
  case (Cons i order)
  from Cons.prems have i: "i < length uris" and notin: "i \<notin> set order"
    and rest: "\<forall>j \<in> set order. j < length uris" and dist: "distinct order"
    by simp_all
  obtain r w1 where unit: "download_and_extract_sync e (uris ! i) d w = (r, w1)"
    by (cases "download_and_extract_sync e (uris ! i) d w")
  from download_and_extract_sync_requests [of e "uris ! i" d w] unit obtain evs1 where
    tr1: "trace w1 = trace w @ evs1" and rq1: "requests_of evs1 = [Requests_get (uris ! i) True 30]"
    by auto
  have len: "length (futures[i := Finished r]) = length uris"
    using Cons.prems(3) by simp
  from Cons.IH [OF rest dist len, of w1] obtain fs w' evs where
    run: "pool_run e d uris order (futures[i := Finished r]) w1 = (fs, w')"
    and l: "length fs = length uris"
    and finished: "\<forall>j \<in> set order. \<exists>w0. fs ! j = Finished (fst (download_and_extract_sync e (uris ! j) d w0))"
    and other: "\<forall>j. j \<notin> set order \<longrightarrow> fs ! j = (futures[i := Finished r]) ! j"
    and tr: "trace w' = trace w1 @ evs"
    and rq: "requests_of evs = map (\<lambda>i. Requests_get (uris ! i) True 30) order"
    by blast
  have whole: "pool_run e d uris (i # order) futures w = (fs, w')"
    using i unit run by simp
  have "fs ! i = Finished r"
    using other notin i Cons.prems(3) by simp
  with unit have fin_i: "\<exists>w0. fs ! i = Finished (fst (download_and_extract_sync e (uris ! i) d w0))"
    by (metis fst_conv)
  have finished': "\<forall>j \<in> set (i # order). \<exists>w0. fs ! j = Finished (fst (download_and_extract_sync e (uris ! j) d w0))"
    using finished fin_i by simp
  have other': "\<forall>j. j \<notin> set (i # order) \<longrightarrow> fs ! j = futures ! j"
    using other by simp
  have tr': "trace w' = trace w @ (evs1 @ evs)"
    using tr tr1 by simp
  have rq': "requests_of (evs1 @ evs) = map (\<lambda>i. Requests_get (uris ! i) True 30) (i # order)"
    using rq rq1 by (simp add: requests_of_append)
  from whole l finished' other' tr' rq' show ?case by blast
qed

lemma first_exception_OSError:
  assumes "\<forall>f \<in> set fs. \<forall>x. f = Finished (Inl x) \<longrightarrow> x = OSError"
    and "first_exception fs = Some x"
  shows "x = OSError"
  using assms by (induction fs rule: first_exception.induct) auto

lemma first_exception_some:
  "Finished (Inl x) \<in> set fs \<Longrightarrow> \<exists>y. first_exception fs = Some y"
  by (induction fs rule: first_exception.induct) auto

lemma first_exception_none:
  "\<forall>f \<in> set fs. \<forall>x. f \<noteq> Finished (Inl x) \<Longrightarrow> first_exception fs = None"
  by (induction fs rule: first_exception.induct) auto

lemma thread_pool_inv:
  "\<exists>fs w' evs. thread_pool e d uris w = (fs, w') \<and> length fs = length uris
     \<and> (\<forall>i < length uris. \<exists>w0. fs ! i = Finished (fst (download_and_extract_sync e (uris ! i) d w0)))
     \<and> trace w' = trace w @ evs
     \<and> requests_of evs =
         map (\<lambda>i. Requests_get (uris ! i) True 30) (run_order (length uris) (schedule e))"
proof -
  let ?order = "run_order (length uris) (schedule e)"
  have bound: "\<forall>i \<in> set ?order. i < length uris"
    by (simp add: run_order_set)
  have len: "length (map (\<lambda>uri. Pending) uris) = length uris" by simp
  from pool_run_inv [OF bound run_order_distinct len, of e d w] obtain fs w' evs where
    run: "pool_run e d uris ?order (map (\<lambda>uri. Pending) uris) w = (fs, w')"
    and l: "length fs = length uris"
    and fin: "\<forall>i \<in> set ?order. \<exists>w0. fs ! i = Finished (fst (download_and_extract_sync e (uris ! i) d w0))"
    and tr: "trace w' = trace w @ evs"
    and rq: "requests_of evs = map (\<lambda>i. Requests_get (uris ! i) True 30) ?order"
    by (elim exE conjE) (rule that, assumption+)
  have "thread_pool e d uris w = (fs, w')"
    using run by (simp add: thread_pool_def)
  moreover have "\<forall>i < length uris. \<exists>w0. fs ! i = Finished (fst (download_and_extract_sync e (uris ! i) d w0))"
    using fin by (simp add: run_order_set)
  ultimately show ?thesis using l tr rq by blast
qed

subsubsection \<open>The event loop\<close>


lemma length_cancel_pending [simp]: "length (cancel_pending fs) = length fs"
  by (simp add: cancel_pending_def)



subsubsection \<open>What the orchestrators can raise\<close>


lemma main_sync_no_mkdir:
  "mkdir_fails e \<Longrightarrow> main_sync e w = (Inl OSError, emit (Print StartingSync) w)"
  by (simp add: main_sync_def create_downloads_directory_def)

lemma main_threaded_no_mkdir:
  "mkdir_fails e \<Longrightarrow> main_threaded e w = (Inl OSError, emit (Print StartingThreaded) w)"
  by (simp add: main_threaded_def create_downloads_directory_def)

lemma main_async_no_mkdir:
  "mkdir_fails e \<Longrightarrow> main_async e w = (Inl OSError, emit (Print StartingAsync) w)"
  by (simp add: main_async_def create_downloads_directory_def)


lemma thread_pool_exceptions:
  assumes "thread_pool e d uris w = (fs, w')" and "f \<in> set fs" and "f = Finished (Inl x)"
  shows "x = OSError"
proof -
  from thread_pool_inv [of e d uris w] assms(1) have l: "length fs = length uris"
    and fin: "\<forall>i < length uris. \<exists>w0. fs ! i = Finished (fst (download_and_extract_sync e (uris ! i) d w0))"
    by auto
  from assms(2) obtain i where "i < length fs" and "fs ! i = f"
    by (auto simp: in_set_conv_nth)
  with l fin assms(3) obtain w0 where
    "fst (download_and_extract_sync e (uris ! i) d w0) = Inl x" by auto
  then show ?thesis by (rule download_and_extract_sync_raise_OSError)
qed







lemma main_no_mkdir:
  assumes "mkdir_fails e"
    and "\<forall>x. stdin_line e = Inl x \<longrightarrow> x = EOFError \<or> x = KeyboardInterrupt"
  shows "fst (main e w) = Inl OSError"
proof (cases "stdin_isatty e")
  case False
  with assms(1) show ?thesis
    by (simp add: main_def main_try_def main_except_def main_sync_no_mkdir)
next
  case True
  show ?thesis
  proof (cases "stdin_line e")
    case (Inl x)
    with assms(2) have "x = EOFError \<or> x = KeyboardInterrupt" by simp
    with True Inl assms(1) show ?thesis
      by (auto simp: main_def main_try_def main_except_def main_sync_no_mkdir)
  next
    case (Inr line)
    with True assms(1) show ?thesis
      by (simp add: main_def main_try_def main_except_def Let_def main_sync_no_mkdir
          main_threaded_no_mkdir main_async_no_mkdir)
  qed
qed

subsubsection \<open>Errors of the filesystem\<close>

lemma extract_zip_file_member_fails:
  assumes "files w p = Some content" and "zip_parse e content = Some entries"
    and "extractall e (parent p) entries w = (Inl x, w1)"
  shows "fst (extract_zip_file e p w) = (if remove_fails e p then Inl OSError else Inr None)"
proof -
  from extractall_keeps [OF assms(3), of p] assms(1) have "files w1 p \<noteq> None"
    by simp
  moreover from extractall_raise [OF assms(3)] have "is_Exception x" .
  ultimately show ?thesis
    using assms
    by (auto simp: extract_zip_file_def extract_zip_file_try_def os_remove_def)
qed

lemma download_file_async_unwritable_None:
  assumes "write_fails e (pjoin d (extract_filename_from_uri uri))"
  shows "fst (download_file_async e uri d w) = Inr None"
proof (cases rule: download_file_async_cases [where e = e and uri = uri and d = d])
  case transport
  then show ?thesis by (simp add: download_file_async_transport)
next
  case (status st body b)
  then show ?thesis by (simp add: download_file_async_status)
next
  case (unwritable st body b)
  then show ?thesis by (simp add: download_file_async_unwritable)
next
  case (broken st body)
  with assms show ?thesis by simp
next
  case (complete st body)
  with assms show ?thesis by simp
qed

lemma download_and_extract_async_None:
  "fst (download_file_async e uri d w) = Inr None \<Longrightarrow>
   fst (download_and_extract_async e uri d w) = Inr ()"
  by (cases "download_file_async e uri d w") (simp add: download_and_extract_async_def)

lemma download_file_sync_raises:
  assumes "case http_get e uri 30 of
      TransportError \<Rightarrow> False
    | Response st body broken \<Rightarrow> \<not> (400 \<le> st \<and> st < 600)"
    and "write_fails e (pjoin d (extract_filename_from_uri uri))"
  shows "fst (download_file_sync e uri d w) = Inl OSError"
proof (cases "http_get e uri 30")
  case TransportError
  with assms show ?thesis by simp
next
  case (Response st body b)
  with assms have "\<not> requests_raise_for_status st"
    by (simp add: requests_raise_for_status_def)
  from download_file_sync_unwritable [OF Response this assms(2)] show ?thesis by simp
qed

lemma download_and_extract_sync_raises:
  "fst (download_file_sync e uri d w) = Inl x \<Longrightarrow>
   fst (download_and_extract_sync e uri d w) = Inl x
   \<and> fst (for_uris e d (uri # uris) w) = Inl x"
  by (cases "download_file_sync e uri d w") (simp add: download_and_extract_sync_def)

lemma main_threaded_unwritable:
  assumes "\<not> mkdir_fails e" and "uri \<in> set download_uris"
    and "case http_get e uri 30 of
      TransportError \<Rightarrow> False
    | Response st body broken \<Rightarrow> \<not> (400 \<le> st \<and> st < 600)"
    and "write_fails e (pjoin [''downloads''] (extract_filename_from_uri uri))"
  shows "fst (main_threaded e w) = Inl OSError"
proof -
  let ?d = "[''downloads'']"
  from thread_pool_inv [of e ?d download_uris "emit (Print StartingThreaded) w"]
  obtain fs w3 where
    tp: "thread_pool e ?d download_uris (emit (Print StartingThreaded) w) = (fs, w3)"
    and l: "length fs = length download_uris"
    and fin: "\<forall>i < length download_uris.
        \<exists>w0. fs ! i = Finished (fst (download_and_extract_sync e (download_uris ! i) ?d w0))"
    by blast
  from assms(2) obtain i where i: "i < length download_uris" and u: "download_uris ! i = uri"
    by (auto simp: in_set_conv_nth)
  from fin i u obtain w0 where "fs ! i = Finished (fst (download_and_extract_sync e uri ?d w0))"
    by auto
  moreover have "fst (download_and_extract_sync e uri ?d w0) = Inl OSError"
    using download_and_extract_sync_raises [OF download_file_sync_raises [OF assms(3,4)]] by simp
  ultimately have "Finished (Inl OSError) \<in> set fs"
    using i l by (metis nth_mem)
  from first_exception_some [OF this] obtain y where fe: "first_exception fs = Some y"
    by blast
  have "\<forall>f \<in> set fs. \<forall>x. f = Finished (Inl x) \<longrightarrow> x = OSError"
    using thread_pool_exceptions [OF tp] by blast
  from first_exception_OSError [OF this fe] fe tp assms(1) show ?thesis
    by (simp add: main_threaded_def create_downloads_directory_def)
qed

subsubsection \<open>Examples of the concurrent orchestrators\<close>



subsubsection \<open>Stripping\<close>



subsection \<open>C1: the archive is gone once the unpacker returns\<close>

text \<open>
  C1. Whenever \<open>extract_zip_file\<close> returns, with a list of entries or with \<^verbatim>\<open>None\<close>, no file
  exists at the archive path afterwards. It does return, with the archive gone, whenever the
  archive can be removed, whatever the file holds and whatever the extraction meets. For a
  file that is no archive it returns \<^verbatim>\<open>None\<close>, prints the failure line and deletes the
  file, and changes no other file.
\<close>

theorem extract_zip_file_archive_removed:
  "(\<forall>r w'. extract_zip_file e p w = (Inr r, w') \<longrightarrow> files w' p = None)
   \<and> (\<not> remove_fails e p \<longrightarrow>
        (\<exists>r w'. extract_zip_file e p w = (Inr r, w') \<and> files w' p = None))
   \<and> (files w p = Some content \<and> zip_parse e content = None \<and> \<not> remove_fails e p \<longrightarrow>
        (\<exists>w'. extract_zip_file e p w = (Inr None, w')
           \<and> files w' = (files w)(p := None)
           \<and> trace w' = trace w @ [Print (FailedExtract p BadZipFile)]))"
proof (intro conjI allI impI)
  fix r w'
  assume "extract_zip_file e p w = (Inr r, w')"
  then show "files w' p = None" by (rule extract_zip_file_returned)
next
  assume "\<not> remove_fails e p"
  from extract_zip_file_removable [OF this, of w] obtain r w' where
    "extract_zip_file e p w = (Inr r, w')" by blast
  with extract_zip_file_returned [OF this]
  show "\<exists>r w'. extract_zip_file e p w = (Inr r, w') \<and> files w' p = None" by blast
next
  assume "files w p = Some content \<and> zip_parse e content = None \<and> \<not> remove_fails e p"
  then have "files w p = Some content" and "zip_parse e content = None" and "\<not> remove_fails e p"
    by blast+
  from extract_zip_file_invalid [OF this]
  show "\<exists>w'. extract_zip_file e p w = (Inr None, w')
           \<and> files w' = (files w)(p := None)
           \<and> trace w' = trace w @ [Print (FailedExtract p BadZipFile)]"
    by simp
qed

theorem extract_zip_file_archive_removed_witness:
  "fst (extract_zip_file env_ok [''downloads'', ''x.zip''] world_bad) = Inr None
   \<and> files (snd (extract_zip_file env_ok [''downloads'', ''x.zip''] world_bad))
        [''downloads'', ''x.zip''] = None
   \<and> trace (snd (extract_zip_file env_ok [''downloads'', ''x.zip''] world_bad))
        = [Print (FailedExtract [''downloads'', ''x.zip''] BadZipFile)]
   \<and> fst (extract_zip_file env_ok [''downloads'', ''x.zip''] world_zip)
        = Inr (Some [''a.csv'', ''b.csv''])
   \<and> files (snd (extract_zip_file env_ok [''downloads'', ''x.zip''] world_zip))
        [''downloads'', ''x.zip''] = None"
proof -
  let ?p = "[''downloads'', ''x.zip'']"
  have bad: "files world_bad ?p = Some ''<html>'' \<and> zip_parse env_ok ''<html>'' = None
      \<and> \<not> remove_fails env_ok ?p"
    by (simp add: world_bad_def env_ok_def)
  have t: "trace world_bad = []" by (simp add: world_bad_def)
  note inst_bad = extract_zip_file_archive_removed [of env_ok ?p world_bad "''<html>''"]
  from inst_bad bad obtain w' where
    b1: "extract_zip_file env_ok ?p world_bad = (Inr None, w')"
    and b2: "files w' = (files world_bad)(?p := None)"
    and b3: "trace w' = trace world_bad @ [Print (FailedExtract ?p BadZipFile)]"
    by blast
  have r: "fst (extract_zip_file env_ok ?p world_zip) = Inr (Some [''a.csv'', ''b.csv''])"
    by (simp add: extract_zip_file_def extract_zip_file_try_def world_zip_def env_ok_def
          parent_def os_remove_def)
  then have "extract_zip_file env_ok ?p world_zip =
      (Inr (Some [''a.csv'', ''b.csv'']), snd (extract_zip_file env_ok ?p world_zip))"
    by (metis prod.collapse)
  with extract_zip_file_archive_removed [of env_ok ?p world_zip]
  have "files (snd (extract_zip_file env_ok ?p world_zip)) ?p = None"
    by blast
  with r b1 b2 b3 t show ?thesis by simp
qed

subsection \<open>C2: failures in the sequential orchestrator\<close>

text \<open>
  The statement for every failure does not hold: \<open>download_file_sync\<close> catches
  \<^verbatim>\<open>RequestException\<close> only. When the target file cannot be opened for writing, the error
  leaves \<open>download_and_extract_sync\<close> and \<open>main_sync\<close>: of the seven locators only the first
  is requested.
\<close>

theorem sequential_write_error_counterexample:
  "fst (download_and_extract_sync env_readonly
      ''https://divvy-tripdata.s3.amazonaws.com/Divvy_Trips_2018_Q4.zip'' [''downloads''] world0)
     = Inl OSError
   \<and> main_sync env_readonly world0 =
      (Inl OSError,
       \<lparr>files = Map.empty,
        trace = [Print StartingSync, Print (Downloading ''Divvy_Trips_2018_Q4.zip''),
                 Requests_get ''https://divvy-tripdata.s3.amazonaws.com/Divvy_Trips_2018_Q4.zip''
                   True 30]\<rparr>)"
  by (simp add: main_sync_def create_downloads_directory_def download_uris_def
      download_and_extract_sync_def download_file_sync_def download_file_sync_try_def Let_def
      env_readonly_def env_ok_def world0_def extract_filename_from_uri_def pjoin_def
      requests_raise_for_status_def emit_def)

text \<open>
  C2 (amended). In the sequential orchestrator, for every locator whose fetch fails with a
  transport error or a status from 400 to 599, and for every locator whose target file can be
  written and removed (whatever else fails: a broken connection, an invalid archive, an entry
  that cannot be written), \<open>download_and_extract_sync\<close> returns without raising and the loop
  goes on with the next locator. When this holds for all locators of the list, the loop
  returns and has requested every locator once, in list order, and so does \<open>main_sync\<close>
  when the directory can be created.
\<close>

theorem sequential_failure_contained:
  assumes "\<forall>uri \<in> set uris.
      (case http_get e uri 30 of
          TransportError \<Rightarrow> True
        | Response st body broken \<Rightarrow> 400 \<le> st \<and> st < 600)
      \<or> (\<not> write_fails e (pjoin d (extract_filename_from_uri uri))
          \<and> \<not> remove_fails e (pjoin d (extract_filename_from_uri uri)))"
  shows "(\<forall>uri \<in> set uris. \<forall>w0. fst (download_and_extract_sync e uri d w0) = Inr ())
    \<and> (\<forall>uri rest w0. uri \<in> set uris \<longrightarrow>
          for_uris e d (uri # rest) w0 = for_uris e d rest (snd (download_and_extract_sync e uri d w0)))
    \<and> (\<exists>w'. for_uris e d uris w = (Inr (), w')
          \<and> requests_of (trace w') =
              requests_of (trace w) @ map (\<lambda>uri. Requests_get uri True 30) uris)
    \<and> (\<not> mkdir_fails e \<and> uris = download_uris \<and> d = [''downloads''] \<longrightarrow>
          fst (main_sync e w) = Inr ()
          \<and> requests_of (trace (snd (main_sync e w))) =
              requests_of (trace w) @ map (\<lambda>uri. Requests_get uri True 30) download_uris)"
proof -
  have item: "fst (download_and_extract_sync e uri d w0) = Inr ()" if "uri \<in> set uris" for uri w0
    using download_and_extract_sync_returns [of e uri d w0] assms that by fastforce
  have step: "for_uris e d (uri # rest) w0 =
      for_uris e d rest (snd (download_and_extract_sync e uri d w0))"
    if "uri \<in> set uris" for uri rest w0
    using item [OF that, of w0] by (cases "download_and_extract_sync e uri d w0") simp
  from for_uris_returns [OF assms, of w] obtain w' where
    run: "for_uris e d uris w = (Inr (), w')" and
    tr: "requests_of (trace w') =
        requests_of (trace w) @ map (\<lambda>uri. Requests_get uri True 30) uris"
    by blast
  have whole: "fst (main_sync e w) = Inr ()
      \<and> requests_of (trace (snd (main_sync e w))) =
          requests_of (trace w) @ map (\<lambda>uri. Requests_get uri True 30) download_uris"
    if "\<not> mkdir_fails e" and u: "uris = download_uris" and dd: "d = [''downloads'']"
  proof -
    from for_uris_returns [OF assms, of "emit (Print StartingSync) w"] obtain w2 where
      "for_uris e d uris (emit (Print StartingSync) w) = (Inr (), w2)" and
      "requests_of (trace w2) = requests_of (trace (emit (Print StartingSync) w))
          @ map (\<lambda>uri. Requests_get uri True 30) uris"
      by blast
    with that show ?thesis
      by (simp add: main_sync_def create_downloads_directory_def requests_of_append)
  qed
  from item step run tr whole show ?thesis by blast
qed

theorem sequential_failure_contained_witness:
  "fst (main_sync env_404 world0) = Inr ()
   \<and> requests_of (trace (snd (main_sync env_404 world0))) =
       map (\<lambda>uri. Requests_get uri True 30) download_uris
   \<and> fst (download_and_extract_sync env_404
        ''https://divvy-tripdata.s3.amazonaws.com/Divvy_Trips_2220_Q1.zip'' [''downloads''] world0)
       = Inr ()"
proof -
  have h: "\<forall>uri \<in> set download_uris.
      (case http_get env_404 uri 30 of
          TransportError \<Rightarrow> True
        | Response st body broken \<Rightarrow> 400 \<le> st \<and> st < 600)
      \<or> (\<not> write_fails env_404 (pjoin [''downloads''] (extract_filename_from_uri uri))
          \<and> \<not> remove_fails env_404 (pjoin [''downloads''] (extract_filename_from_uri uri)))"
    by (simp add: env_404_def env_ok_def)
  have m: "\<not> mkdir_fails env_404"
    by (simp add: env_404_def env_ok_def)
  have t: "requests_of (trace world0) = []"
    by (simp add: world0_def)
  have u: "''https://divvy-tripdata.s3.amazonaws.com/Divvy_Trips_2220_Q1.zip'' \<in> set download_uris"
    by (simp add: download_uris_def)
  note inst = sequential_failure_contained [OF h, of world0]
  from inst u have a: "fst (download_and_extract_sync env_404
        ''https://divvy-tripdata.s3.amazonaws.com/Divvy_Trips_2220_Q1.zip'' [''downloads''] world0)
       = Inr ()"
    by (elim conjE) (drule (1) bspec, erule spec)
  from inst m have "fst (main_sync env_404 world0) = Inr ()
          \<and> requests_of (trace (snd (main_sync env_404 world0))) =
              requests_of (trace world0) @ map (\<lambda>uri. Requests_get uri True 30) download_uris"
    by (elim conjE) simp
  with a show ?thesis
    unfolding t by simp
qed

subsection \<open>C3: the units of the pooled and of the cooperative orchestrator\<close>




subsection \<open>C4: a failed fetch gives no path and no extraction\<close>

text \<open>
  The statement for every status outside 200 to 299 does not hold: \<^verbatim>\<open>raise_for_status\<close> raises
  for 400 to 599 only. A server that answers 304 with an empty body makes the fetch write an
  empty file and return its path, and the extraction is attempted (and fails).
\<close>

theorem fetch_status_304_counterexample:
  "fst (download_file_sync env_304 ''http://host/x.zip'' [''downloads''] world0)
     = Inr (Some [''downloads'', ''x.zip''])
   \<and> files (snd (download_file_sync env_304 ''http://host/x.zip'' [''downloads''] world0))
        [''downloads'', ''x.zip''] = Some []
   \<and> trace (snd (download_and_extract_sync env_304 ''http://host/x.zip'' [''downloads''] world0))
     = [Print (Downloading ''x.zip''), Requests_get ''http://host/x.zip'' True 30,
        Print (Downloaded ''x.zip''),
        Print (FailedExtract [''downloads'', ''x.zip''] BadZipFile)]"
  by (simp add: download_and_extract_sync_def download_file_sync_def download_file_sync_try_def
      Let_def env_304_def env_ok_def world0_def extract_filename_from_uri_def pjoin_def
      requests_raise_for_status_def iter_content_def open_wb_def
      extract_zip_file_def extract_zip_file_try_def os_remove_def)

text \<open>
  C4 (amended). For every fetch that meets a transport error before the answer, a status from
  400 to 599, or a connection that breaks while the body is written to a writable file,
  \<open>download_file_sync\<close> returns \<^verbatim>\<open>None\<close>, \<open>download_and_extract_sync\<close> returns in the world the
  fetch left (no extraction is attempted), and no file other than the target is touched. For
  the transport error and the status from 400 to 599 the filesystem is unchanged altogether,
  so no empty file is left behind, and the trace shows the request and the failure line only.
\<close>

theorem fetch_failure_no_extraction:
  assumes "case http_get e uri 30 of
      TransportError \<Rightarrow> True
    | Response st body broken \<Rightarrow>
        (400 \<le> st \<and> st < 600)
        \<or> (broken \<and> \<not> write_fails e (pjoin d (extract_filename_from_uri uri)))"
  shows "fst (download_file_sync e uri d w) = Inr None
    \<and> download_and_extract_sync e uri d w = (Inr (), snd (download_file_sync e uri d w))
    \<and> (\<forall>q. q \<noteq> pjoin d (extract_filename_from_uri uri) \<longrightarrow>
          files (snd (download_and_extract_sync e uri d w)) q = files w q)
    \<and> ((case http_get e uri 30 of
           TransportError \<Rightarrow> True
         | Response st body broken \<Rightarrow> 400 \<le> st \<and> st < 600) \<longrightarrow>
        files (snd (download_and_extract_sync e uri d w)) = files w
        \<and> trace (snd (download_and_extract_sync e uri d w)) =
            trace w @ [Print (Downloading (extract_filename_from_uri uri)),
                       Requests_get uri True 30,
                       Print (FailedDownload uri RequestException)])"
proof -
  let ?w0 = "emit (Print (FailedDownload uri RequestException))
       (emit (Requests_get uri True 30) (emit (Print (Downloading (extract_filename_from_uri uri))) w))"
  let ?early = "case http_get e uri 30 of
           TransportError \<Rightarrow> True
         | Response st body broken \<Rightarrow> 400 \<le> st \<and> st < 600"
  have early: "download_file_sync e uri d w = (Inr None, ?w0)" if ?early
  proof (cases "http_get e uri 30")
    case TransportError
    then show ?thesis by (rule download_file_sync_transport)
  next
    case (Response st body b)
    with that have "requests_raise_for_status st"
      by (simp add: requests_raise_for_status_def)
    with Response show ?thesis by (rule download_file_sync_status)
  qed
  have late: "\<exists>st body. http_get e uri 30 = Response st body True
      \<and> \<not> requests_raise_for_status st
      \<and> \<not> write_fails e (pjoin d (extract_filename_from_uri uri))" if "\<not> ?early"
    using that assms
    by (cases "http_get e uri 30") (auto simp: requests_raise_for_status_def)
  have none: "fst (download_file_sync e uri d w) = Inr None"
  proof (cases ?early)
    case True
    then show ?thesis by (simp add: early)
  next
    case False
    from late [OF this] obtain st body where "http_get e uri 30 = Response st body True"
      and "\<not> requests_raise_for_status st"
      and "\<not> write_fails e (pjoin d (extract_filename_from_uri uri))"
      by blast
    from download_file_sync_broken [OF this] show ?thesis by simp
  qed
  have other: "files (snd (download_file_sync e uri d w)) q = files w q"
    if "q \<noteq> pjoin d (extract_filename_from_uri uri)" for q
  proof (cases ?early)
    case True
    then show ?thesis by (simp add: early)
  next
    case False
    from late [OF this] obtain st body where "http_get e uri 30 = Response st body True"
      and "\<not> requests_raise_for_status st"
      and "\<not> write_fails e (pjoin d (extract_filename_from_uri uri))"
      by blast
    from download_file_sync_broken [OF this] that show ?thesis
      by (simp add: files_write_chunks_other open_wb_def)
  qed
  note step = download_and_extract_sync_None [OF none]
  from none step other early show ?thesis by simp
qed

theorem fetch_failure_no_extraction_witness:
  "fst (download_file_sync env_404 ''http://host/x.zip'' [''downloads''] world0) = Inr None
   \<and> files (snd (download_and_extract_sync env_404 ''http://host/x.zip'' [''downloads''] world0))
       = Map.empty
   \<and> trace (snd (download_and_extract_sync env_404 ''http://host/x.zip'' [''downloads''] world0))
       = [Print (Downloading ''x.zip''), Requests_get ''http://host/x.zip'' True 30,
          Print (FailedDownload ''http://host/x.zip'' RequestException)]"
proof -
  have r: "http_get env_404 ''http://host/x.zip'' 30 = Response 404 (\<lambda>n. [''Not Found'']) False"
    by (simp add: env_404_def env_ok_def)
  then have h: "case http_get env_404 ''http://host/x.zip'' 30 of
      TransportError \<Rightarrow> True
    | Response st body broken \<Rightarrow>
        (400 \<le> st \<and> st < 600)
        \<or> (broken \<and> \<not> write_fails env_404
              (pjoin [''downloads''] (extract_filename_from_uri ''http://host/x.zip'')))"
    by simp
  have fn: "extract_filename_from_uri ''http://host/x.zip'' = ''x.zip''"
    by (simp add: extract_filename_from_uri_def)
  have t: "trace world0 = []" "files world0 = Map.empty"
    by (simp_all add: world0_def)
  have early: "case http_get env_404 ''http://host/x.zip'' 30 of
      TransportError \<Rightarrow> True
    | Response st body broken \<Rightarrow> 400 \<le> st \<and> st < 600"
    using r by simp
  note inst = fetch_failure_no_extraction [OF h, of world0]
  from inst have a: "fst (download_file_sync env_404 ''http://host/x.zip'' [''downloads''] world0) = Inr None"
    by (elim conjE)
  from inst early have
    "files (snd (download_and_extract_sync env_404 ''http://host/x.zip'' [''downloads''] world0)) = files world0
     \<and> trace (snd (download_and_extract_sync env_404 ''http://host/x.zip'' [''downloads''] world0)) =
         trace world0 @ [Print (Downloading (extract_filename_from_uri ''http://host/x.zip'')),
           Requests_get ''http://host/x.zip'' True 30,
           Print (FailedDownload ''http://host/x.zip'' RequestException)]"
    by (elim conjE impE) (assumption, intro conjI, assumption+)
  with a show ?thesis
    unfolding fn t by simp
qed

subsection \<open>C5: a valid archive is extracted, reported and removed\<close>




subsection \<open>C6: errors of the filesystem\<close>

text \<open>
  The statement does not hold for the cooperative fetcher and for the unpacker, whose handlers
  catch \<^verbatim>\<open>Exception\<close>: on a disk where no file can be written, the cooperative fetch returns
  \<^verbatim>\<open>None\<close> and its task returns, and the extraction of a valid archive returns \<^verbatim>\<open>None\<close>.
\<close>

theorem write_error_caught_counterexample:
  "fst (download_file_async env_readonly ''http://host/x.zip'' [''downloads''] world0) = Inr None
   \<and> fst (download_and_extract_async env_readonly ''http://host/x.zip'' [''downloads''] world0)
       = Inr ()
   \<and> fst (extract_zip_file env_readonly [''downloads'', ''x.zip''] world_zip) = Inr None"
  by (simp add: download_and_extract_async_def download_file_async_def
      download_file_async_try_def Let_def env_readonly_def env_ok_def world0_def world_zip_def
      extract_filename_from_uri_def pjoin_def aiohttp_raise_for_status_def
      extract_zip_file_def extract_zip_file_try_def os_remove_def parent_def)

text \<open>
  C6 (amended). A failure to create the downloads directory is handled nowhere: it leaves
  \<open>main_sync\<close>, \<open>main_threaded\<close> and \<open>main_async\<close>, and it leaves \<open>main\<close> whichever strategy
  is chosen (when \<^verbatim>\<open>input\<close> raises nothing but \<^verbatim>\<open>EOFError\<close> or \<^verbatim>\<open>KeyboardInterrupt\<close>). A
  failure to open or write the target file is not handled by the blocking fetcher: when the
  answer has no status from 400 to 599, the error leaves \<open>download_file_sync\<close>,
  \<open>download_and_extract_sync\<close> and the loop of the sequential orchestrator, and for a locator
  of the list it leaves \<open>main_threaded\<close>. The cooperative fetcher catches it and returns
  \<^verbatim>\<open>None\<close>, so the task returns. The unpacker catches the failure of the extraction of an
  entry and returns \<^verbatim>\<open>None\<close>, unless the removal of the archive in its handler fails, which
  raises.
\<close>

theorem filesystem_errors:
  "(mkdir_fails e \<longrightarrow>
      fst (main_sync e w) = Inl OSError
      \<and> fst (main_threaded e w) = Inl OSError
      \<and> fst (main_async e w) = Inl OSError
      \<and> ((\<forall>x. stdin_line e = Inl x \<longrightarrow> x = EOFError \<or> x = KeyboardInterrupt) \<longrightarrow>
           fst (main e w) = Inl OSError))
   \<and> ((case http_get e uri 30 of
          TransportError \<Rightarrow> False
        | Response st body broken \<Rightarrow> \<not> (400 \<le> st \<and> st < 600))
       \<and> write_fails e (pjoin d (extract_filename_from_uri uri)) \<longrightarrow>
      fst (download_file_sync e uri d w) = Inl OSError
      \<and> fst (download_and_extract_sync e uri d w) = Inl OSError
      \<and> fst (for_uris e d (uri # uris) w) = Inl OSError)
   \<and> (\<not> mkdir_fails e \<and> uri \<in> set download_uris
       \<and> (case http_get e uri 30 of
            TransportError \<Rightarrow> False
          | Response st body broken \<Rightarrow> \<not> (400 \<le> st \<and> st < 600))
       \<and> write_fails e (pjoin [''downloads''] (extract_filename_from_uri uri)) \<longrightarrow>
      fst (main_threaded e w) = Inl OSError)
   \<and> (write_fails e (pjoin d (extract_filename_from_uri uri)) \<longrightarrow>
      fst (download_file_async e uri d w) = Inr None
      \<and> fst (download_and_extract_async e uri d w) = Inr ())
   \<and> (files w p = Some content \<and> zip_parse e content = Some entries
       \<and> extractall e (parent p) entries w = (Inl x, w1) \<longrightarrow>
      fst (extract_zip_file e p w) = (if remove_fails e p then Inl OSError else Inr None))"
proof (intro conjI impI)
  assume "mkdir_fails e"
  then show "fst (main_sync e w) = Inl OSError"
    and "fst (main_threaded e w) = Inl OSError"
    and "fst (main_async e w) = Inl OSError"
    by (simp_all add: main_sync_no_mkdir main_threaded_no_mkdir main_async_no_mkdir)
next
  assume "mkdir_fails e"
    and "\<forall>x. stdin_line e = Inl x \<longrightarrow> x = EOFError \<or> x = KeyboardInterrupt"
  then show "fst (main e w) = Inl OSError"
    by (rule main_no_mkdir)
next
  assume a: "(case http_get e uri 30 of
          TransportError \<Rightarrow> False
        | Response st body broken \<Rightarrow> \<not> (400 \<le> st \<and> st < 600))
       \<and> write_fails e (pjoin d (extract_filename_from_uri uri))"
  then have r: "fst (download_file_sync e uri d w) = Inl OSError"
    by (intro download_file_sync_raises) simp_all
  from r show "fst (download_file_sync e uri d w) = Inl OSError" .
  from download_and_extract_sync_raises [OF r]
  show "fst (download_and_extract_sync e uri d w) = Inl OSError"
    and "fst (for_uris e d (uri # uris) w) = Inl OSError"
    by simp_all
next
  assume "\<not> mkdir_fails e \<and> uri \<in> set download_uris
       \<and> (case http_get e uri 30 of
            TransportError \<Rightarrow> False
          | Response st body broken \<Rightarrow> \<not> (400 \<le> st \<and> st < 600))
       \<and> write_fails e (pjoin [''downloads''] (extract_filename_from_uri uri))"
  then have "\<not> mkdir_fails e" and "uri \<in> set download_uris"
    and "case http_get e uri 30 of
            TransportError \<Rightarrow> False
          | Response st body broken \<Rightarrow> \<not> (400 \<le> st \<and> st < 600)"
    and "write_fails e (pjoin [''downloads''] (extract_filename_from_uri uri))"
    by simp_all
  then show "fst (main_threaded e w) = Inl OSError"
    by (rule main_threaded_unwritable)
next
  assume a: "write_fails e (pjoin d (extract_filename_from_uri uri))"
  from download_file_async_unwritable_None [OF a]
  show r: "fst (download_file_async e uri d w) = Inr None" .
  from download_and_extract_async_None [OF r]
  show "fst (download_and_extract_async e uri d w) = Inr ()" .
next
  assume "files w p = Some content \<and> zip_parse e content = Some entries
       \<and> extractall e (parent p) entries w = (Inl x, w1)"
  then have "files w p = Some content" and "zip_parse e content = Some entries"
    and "extractall e (parent p) entries w = (Inl x, w1)"
    by simp_all
  then show "fst (extract_zip_file e p w) = (if remove_fails e p then Inl OSError else Inr None)"
    by (rule extract_zip_file_member_fails)
qed

theorem filesystem_errors_witness:
  "fst (main_sync env_no_mkdir world0) = Inl OSError
   \<and> fst (main_threaded env_no_mkdir world0) = Inl OSError
   \<and> fst (main_async env_no_mkdir world0) = Inl OSError
   \<and> fst (main env_no_mkdir world0) = Inl OSError
   \<and> fst (download_file_sync env_readonly ''http://host/x.zip'' [''downloads''] world0) = Inl OSError
   \<and> fst (for_uris env_readonly [''downloads''] [''http://host/x.zip'', ''http://host/y.zip''] world0)
       = Inl OSError
   \<and> fst (main_threaded env_readonly world0) = Inl OSError
   \<and> fst (download_file_async env_readonly ''http://host/x.zip'' [''downloads''] world0) = Inr None
   \<and> fst (extract_zip_file env_readonly [''downloads'', ''x.zip''] world_zip) = Inr None"
proof -
  let ?u = "''https://divvy-tripdata.s3.amazonaws.com/Divvy_Trips_2018_Q4.zip''"
  let ?p = "[''downloads'', ''x.zip'']"
  let ?es = "[(''a.csv'', ''1''), (''b.csv'', ''2'')]"
  have m: "mkdir_fails env_no_mkdir"
    and i: "\<forall>x. stdin_line env_no_mkdir = Inl x \<longrightarrow> x = EOFError \<or> x = KeyboardInterrupt"
    by (simp_all add: env_no_mkdir_def env_ok_def)
  have g: "case http_get env_readonly uri 30 of
          TransportError \<Rightarrow> False
        | Response st body broken \<Rightarrow> \<not> (400 \<le> st \<and> st < 600)" for uri
    by (simp add: env_readonly_def env_ok_def)
  have wf: "write_fails env_readonly q" for q
    by (simp add: env_readonly_def env_ok_def)
  have rf: "\<not> remove_fails env_readonly q" for q
    by (simp add: env_readonly_def env_ok_def)
  have nm: "\<not> mkdir_fails env_readonly"
    by (simp add: env_readonly_def env_ok_def)
  have u: "?u \<in> set download_uris"
    by (simp add: download_uris_def)
  have f: "files world_zip ?p = Some ''PK''"
    by (simp add: world_zip_def)
  have z: "zip_parse env_readonly ''PK'' = Some ?es"
    by (simp add: env_readonly_def env_ok_def)
  have "fst (extractall env_readonly (parent ?p) ?es world_zip) = Inl OSError"
    by (simp add: env_readonly_def env_ok_def)
  then have x: "extractall env_readonly (parent ?p) ?es world_zip =
      (Inl OSError, snd (extractall env_readonly (parent ?p) ?es world_zip))"
    by (metis prod.collapse)
  from filesystem_errors [of env_no_mkdir world0] m i
  have a: "fst (main_sync env_no_mkdir world0) = Inl OSError
      \<and> fst (main_threaded env_no_mkdir world0) = Inl OSError
      \<and> fst (main_async env_no_mkdir world0) = Inl OSError
      \<and> fst (main env_no_mkdir world0) = Inl OSError"
    by blast
  note fetch = filesystem_errors [of env_readonly world0 "''http://host/x.zip''" "[''downloads'']"
      "[''http://host/y.zip'']"]
  note pooled = filesystem_errors [of env_readonly world0 ?u]
  note unpack = filesystem_errors [of env_readonly world_zip "''http://host/x.zip''" "[''downloads'']"
      "[''http://host/y.zip'']" ?p "''PK''" ?es OSError
      "snd (extractall env_readonly (parent ?p) ?es world_zip)"]
  from fetch g [of "''http://host/x.zip''"]
    wf [of "pjoin [''downloads''] (extract_filename_from_uri ''http://host/x.zip'')"]
  have b1: "fst (download_file_sync env_readonly ''http://host/x.zip'' [''downloads''] world0) = Inl OSError"
    and b2: "fst (for_uris env_readonly [''downloads''] [''http://host/x.zip'', ''http://host/y.zip''] world0)
       = Inl OSError"
    and b3: "fst (download_file_async env_readonly ''http://host/x.zip'' [''downloads''] world0) = Inr None"
    by blast+
  from pooled nm u g [of ?u] wf [of "pjoin [''downloads''] (extract_filename_from_uri ?u)"]
  have b5: "fst (main_threaded env_readonly world0) = Inl OSError"
    by blast
  from unpack f z x
  have "fst (extract_zip_file env_readonly ?p world_zip)
      = (if remove_fails env_readonly ?p then Inl OSError else Inr None)"
    by blast
  then have b4: "fst (extract_zip_file env_readonly ?p world_zip) = Inr None"
    using rf by simp
  from a b1 b2 b3 b4 b5 show ?thesis by simp
qed

subsection \<open>C7: one outcome for each locator\<close>

text \<open>
  The statement with a non-empty list of entries does not hold: for an archive without
  entries the fetch returns the path, the extraction returns the empty list and prints the
  success line, and no failure line is printed. There is neither a non-empty result nor a
  failure record.
\<close>

theorem empty_archive_counterexample:
  "fst (download_file_sync env_empty_zip ''http://host/x.zip'' [''downloads''] world0)
     = Inr (Some [''downloads'', ''x.zip''])
   \<and> fst (extract_zip_file env_empty_zip [''downloads'', ''x.zip'']
        (snd (download_file_sync env_empty_zip ''http://host/x.zip'' [''downloads''] world0)))
     = Inr (Some [])
   \<and> fst (download_and_extract_sync env_empty_zip ''http://host/x.zip'' [''downloads''] world0)
     = Inr ()
   \<and> trace (snd (download_and_extract_sync env_empty_zip ''http://host/x.zip'' [''downloads''] world0))
     = [Print (Downloading ''x.zip''), Requests_get ''http://host/x.zip'' True 30,
        Write [''downloads'', ''x.zip''] ''PK'', Print (Downloaded ''x.zip''),
        Print (Extracted ''x.zip'')]"
  by (simp add: download_and_extract_sync_def empty_zip_fetch extract_zip_file_def
      extract_zip_file_try_def env_empty_zip_fields os_remove_def name_def emit_def)

text \<open>
  C7 (amended). For every locator whose processing by \<open>download_and_extract_sync\<close> returns,
  the lines it adds to the trace hold exactly one record of an outcome: either the line of a
  finished extraction or one failure line (of the fetch or of the extraction), never both and
  never neither. The line of a finished extraction is there exactly when the fetch returned a
  path and \<open>extract_zip_file\<close> returned a list of entry names, which may be empty.
\<close>

theorem sequential_item_outcome:
  assumes "download_and_extract_sync e uri d w = (Inr (), w')"
  shows "\<exists>evs. trace w' = trace w @ evs
    \<and> length (filter is_extracted_record evs) + length (filter is_failure_record evs) = 1
    \<and> ((\<exists>ev \<in> set evs. is_extracted_record ev) \<longleftrightarrow>
        (\<exists>p names. fst (download_file_sync e uri d w) = Inr (Some p)
           \<and> fst (extract_zip_file e p (snd (download_file_sync e uri d w))) = Inr (Some names)))"
proof (cases rule: download_file_sync_cases [where e = e and uri = uri and d = d])
  case transport
  note dl = download_file_sync_transport [OF transport, of d w]
  from assms dl have "trace w' = trace w @ [Print (Downloading (extract_filename_from_uri uri)),
      Requests_get uri True 30, Print (FailedDownload uri RequestException)]"
    by (auto simp: download_and_extract_sync_def)
  then show ?thesis
    unfolding extracted_record_iff by (intro exI conjI, assumption) (simp_all add: dl)
next
  case (status st body b)
  note dl = download_file_sync_status [OF status, of d w]
  from assms dl have "trace w' = trace w @ [Print (Downloading (extract_filename_from_uri uri)),
      Requests_get uri True 30, Print (FailedDownload uri RequestException)]"
    by (auto simp: download_and_extract_sync_def)
  then show ?thesis
    unfolding extracted_record_iff by (intro exI conjI, assumption) (simp_all add: dl)
next
  case (unwritable st body b)
  from assms download_file_sync_unwritable [OF unwritable, of w] show ?thesis
    by (simp add: download_and_extract_sync_def)
next
  case (broken st body)
  note dl = download_file_sync_broken [OF broken, of w]
  from assms dl have "trace w' = trace w @ [Print (Downloading (extract_filename_from_uri uri)),
      Requests_get uri True 30]
      @ map (Write (pjoin d (extract_filename_from_uri uri))) (iter_content body 8192)
      @ [Print (FailedDownload uri RequestException)]"
    by (auto simp: download_and_extract_sync_def trace_write_chunks)
  then show ?thesis
    unfolding extracted_record_iff by (intro exI conjI, assumption) (simp_all add: dl)
next
  case (complete st body)
  let ?p = "pjoin d (extract_filename_from_uri uri)"
  let ?w1 = "emit (Print (Downloaded (extract_filename_from_uri uri)))
       (write_chunks ?p (iter_content body 8192)
         (open_wb ?p (emit (Requests_get uri True 30)
             (emit (Print (Downloading (extract_filename_from_uri uri))) w))))"
  let ?dl = "[Print (Downloading (extract_filename_from_uri uri)), Requests_get uri True 30]
      @ map (Write ?p) (iter_content body 8192)
      @ [Print (Downloaded (extract_filename_from_uri uri))]"
  note dl = download_file_sync_complete [OF complete, of w]
  have tr1: "trace ?w1 = trace w @ ?dl"
    by (simp add: trace_write_chunks)
  from assms dl obtain r where ex: "extract_zip_file e ?p ?w1 = (Inr r, w')"
    by (auto simp: download_and_extract_sync_def split: prod.splits sum.splits)
  from extract_zip_file_outcome [of e ?p ?w1] ex
  consider (ok) ns where "r = Some ns" "trace w' = trace ?w1 @ [Print (Extracted (name ?p))]"
    | (failed) x where "r = None" "trace w' = trace ?w1 @ [Print (FailedExtract ?p x)]"
    by auto
  then show ?thesis
  proof cases
    case ok
    then have "trace w' = trace w @ (?dl @ [Print (Extracted (name ?p))])"
      using tr1 by simp
    then show ?thesis
      unfolding extracted_record_iff
      by (intro exI conjI, assumption) (simp_all add: dl ex ok(1))
  next
    case failed
    then have "trace w' = trace w @ (?dl @ [Print (FailedExtract ?p x)])"
      using tr1 by simp
    then show ?thesis
      unfolding extracted_record_iff
      by (intro exI conjI, assumption) (simp_all add: dl ex failed(1))
  qed
qed

theorem sequential_item_outcome_witness:
  "length (filter is_extracted_record
      (trace (snd (download_and_extract_sync env_empty_zip ''http://host/x.zip'' [''downloads''] world0))))
   + length (filter is_failure_record
      (trace (snd (download_and_extract_sync env_empty_zip ''http://host/x.zip'' [''downloads''] world0))))
   = 1"
proof -
  have r: "fst (download_and_extract_sync env_empty_zip ''http://host/x.zip'' [''downloads''] world0)
     = Inr ()"
    by (simp add: download_and_extract_sync_def empty_zip_fetch extract_zip_file_def
      extract_zip_file_try_def env_empty_zip_fields os_remove_def name_def emit_def)
  then have h: "download_and_extract_sync env_empty_zip ''http://host/x.zip'' [''downloads''] world0 =
      (Inr (), snd (download_and_extract_sync env_empty_zip ''http://host/x.zip'' [''downloads''] world0))"
    by (metis prod.collapse)
  have t: "trace world0 = []" by (simp add: world0_def)
  from sequential_item_outcome [OF h] show ?thesis
    unfolding t by auto
qed

subsection \<open>C8: the choice of the strategy\<close>




subsection \<open>C9: timeouts and chunk size of a fetch\<close>

text \<open>
  The statement that the chunks written are of 8192 bytes does not hold: 8192 is the chunk
  size the program asks the library for, and the pieces the library yields are written as
  they come. A body that reaches the program in two pieces of two bytes is written in two
  chunks of two bytes, the first of which is not the last.
\<close>

theorem fetch_chunk_size_counterexample:
  "trace (snd (download_file_sync env_pieces ''http://host/x.zip'' [''downloads''] world0)) =
     [Print (Downloading ''x.zip''), Requests_get ''http://host/x.zip'' True 30,
      Write [''downloads'', ''x.zip''] ''PK'', Write [''downloads'', ''x.zip''] ''zz'',
      Print (Downloaded ''x.zip'')]
   \<and> length ''PK'' \<noteq> 8192"
  by (simp add: download_file_sync_def download_file_sync_try_def Let_def env_pieces_def env_ok_def
      world0_def extract_filename_from_uri_def pjoin_def requests_raise_for_status_def
      iter_content_def open_wb_def f_write_def emit_def)

text \<open>
  C9 (amended). One blocking fetch adds exactly one request to the trace, the streaming
  \<^verbatim>\<open>requests.get\<close> of the locator with a timeout of 30 seconds; one cooperative fetch adds
  exactly one request, \<^verbatim>\<open>session.get\<close> of the locator with a total timeout of 60 seconds.
  Both stream the body to disk without holding the whole of it: they ask the library for
  pieces of 8192 bytes and write every piece it yields, one write for each piece, in order
  (nothing is written after a transport error, an error status or a failure to open the
  file). The length of a piece is the library's and need not be 8192. When the fetch returns
  a path, the file holds the pieces written, one after the other.
\<close>

theorem fetch_timeout_and_chunks:
  "(\<exists>evs. trace (snd (download_file_sync e uri d w)) = trace w @ evs
      \<and> requests_of evs = [Requests_get uri True 30]
      \<and> written_chunks evs =
          (case http_get e uri 30 of
             TransportError \<Rightarrow> []
           | Response st body broken \<Rightarrow>
               if (400 \<le> st \<and> st < 600) \<or> write_fails e (pjoin d (extract_filename_from_uri uri))
               then [] else iter_content body 8192)
      \<and> (\<forall>p. fst (download_file_sync e uri d w) = Inr (Some p) \<longrightarrow>
            files (snd (download_file_sync e uri d w)) p = Some (concat (written_chunks evs))))
   \<and> (\<exists>evs. trace (snd (download_file_async e uri d w)) = trace w @ evs
      \<and> requests_of evs = [Session_get uri 60]
      \<and> written_chunks evs =
          (case http_get e uri 60 of
             TransportError \<Rightarrow> []
           | Response st body broken \<Rightarrow>
               if 400 \<le> st \<or> write_fails e (pjoin d (extract_filename_from_uri uri))
               then [] else iter_chunked body 8192)
      \<and> (\<forall>p. fst (download_file_async e uri d w) = Inr (Some p) \<longrightarrow>
            files (snd (download_file_async e uri d w)) p = Some (concat (written_chunks evs))))"
proof (rule conjI)
  from download_file_sync_events [of e uri d w] obtain evs where
    tr: "trace (snd (download_file_sync e uri d w)) = trace w @ evs"
    and rq: "requests_of evs = [Requests_get uri True 30]"
    and wc: "written_chunks evs =
          (case http_get e uri 30 of
             TransportError \<Rightarrow> []
           | Response st body broken \<Rightarrow>
               if (400 \<le> st \<and> st < 600) \<or> write_fails e (pjoin d (extract_filename_from_uri uri))
               then [] else iter_content body 8192)"
    by blast
  have "files (snd (download_file_sync e uri d w)) p = Some (concat (written_chunks evs))"
    if ok: "fst (download_file_sync e uri d w) = Inr (Some p)" for p
  proof -
    from download_file_sync_body [OF ok] obtain st body where
      r: "http_get e uri 30 = Response st body False" and nr: "\<not> requests_raise_for_status st"
      and f: "files (snd (download_file_sync e uri d w)) p = Some (concat (iter_content body 8192))"
      by blast
    have "\<not> write_fails e (pjoin d (extract_filename_from_uri uri))"
      using ok r nr by (auto simp: download_file_sync_unwritable)
    with wc r nr f show ?thesis by (auto simp: requests_raise_for_status_def)
  qed
  with tr rq wc
  show "\<exists>evs. trace (snd (download_file_sync e uri d w)) = trace w @ evs
      \<and> requests_of evs = [Requests_get uri True 30]
      \<and> written_chunks evs =
          (case http_get e uri 30 of
             TransportError \<Rightarrow> []
           | Response st body broken \<Rightarrow>
               if (400 \<le> st \<and> st < 600) \<or> write_fails e (pjoin d (extract_filename_from_uri uri))
               then [] else iter_content body 8192)
      \<and> (\<forall>p. fst (download_file_sync e uri d w) = Inr (Some p) \<longrightarrow>
            files (snd (download_file_sync e uri d w)) p = Some (concat (written_chunks evs)))"
    by blast
next
  from download_file_async_events [of e uri d w] obtain evs where
    tr: "trace (snd (download_file_async e uri d w)) = trace w @ evs"
    and rq: "requests_of evs = [Session_get uri 60]"
    and wc: "written_chunks evs =
          (case http_get e uri 60 of
             TransportError \<Rightarrow> []
           | Response st body broken \<Rightarrow>
               if 400 \<le> st \<or> write_fails e (pjoin d (extract_filename_from_uri uri))
               then [] else iter_chunked body 8192)"
    by blast
  have "files (snd (download_file_async e uri d w)) p = Some (concat (written_chunks evs))"
    if ok: "fst (download_file_async e uri d w) = Inr (Some p)" for p
  proof -
    from download_file_async_body [OF ok] obtain st body where
      r: "http_get e uri 60 = Response st body False" and nr: "\<not> aiohttp_raise_for_status st"
      and f: "files (snd (download_file_async e uri d w)) p = Some (concat (iter_chunked body 8192))"
      by blast
    have "\<not> write_fails e (pjoin d (extract_filename_from_uri uri))"
      using ok r nr by (auto simp: download_file_async_unwritable)
    with wc r nr f show ?thesis by (auto simp: aiohttp_raise_for_status_def)
  qed
  with tr rq wc
  show "\<exists>evs. trace (snd (download_file_async e uri d w)) = trace w @ evs
      \<and> requests_of evs = [Session_get uri 60]
      \<and> written_chunks evs =
          (case http_get e uri 60 of
             TransportError \<Rightarrow> []
           | Response st body broken \<Rightarrow>
               if 400 \<le> st \<or> write_fails e (pjoin d (extract_filename_from_uri uri))
               then [] else iter_chunked body 8192)
      \<and> (\<forall>p. fst (download_file_async e uri d w) = Inr (Some p) \<longrightarrow>
            files (snd (download_file_async e uri d w)) p = Some (concat (written_chunks evs)))"
    by blast
qed

theorem fetch_timeout_and_chunks_witness:
  "requests_of (trace (snd (download_file_sync env_pieces ''http://host/x.zip'' [''downloads''] world0)))
     = [Requests_get ''http://host/x.zip'' True 30]
   \<and> written_chunks (trace (snd (download_file_sync env_pieces ''http://host/x.zip'' [''downloads''] world0)))
     = [''PK'', ''zz'']
   \<and> files (snd (download_file_sync env_pieces ''http://host/x.zip'' [''downloads''] world0))
        [''downloads'', ''x.zip''] = Some ''PKzz''
   \<and> requests_of (trace (snd (download_file_async env_pieces ''http://host/x.zip'' [''downloads''] world0)))
     = [Session_get ''http://host/x.zip'' 60]
   \<and> written_chunks (trace (snd (download_file_async env_pieces ''http://host/x.zip'' [''downloads''] world0)))
     = [''PK'', ''zz'']
   \<and> files (snd (download_file_async env_pieces ''http://host/x.zip'' [''downloads''] world0))
        [''downloads'', ''x.zip''] = Some ''PKzz''"
proof -
  have t: "trace world0 = []" by (simp add: world0_def)
  have r: "http_get env_pieces ''http://host/x.zip'' t = Response 200 (\<lambda>n. [''PK'', ''zz'']) False" for t
    by (simp add: env_pieces_def env_ok_def)
  have wf: "\<not> write_fails env_pieces q" for q
    by (simp add: env_pieces_def env_ok_def)
  from fetch_timeout_and_chunks [of env_pieces "''http://host/x.zip''" "[''downloads'']" world0]
  show ?thesis
    unfolding t fetch_example_sync fetch_example_async r
    by (auto simp: wf iter_content_def iter_chunked_def)
qed

subsection \<open>C10: an archive without entries is a success\<close>

text \<open>
  C10. For a valid archive with zero entries that can be removed, \<open>extract_zip_file\<close>
  returns the empty list of names (a success, not \<^verbatim>\<open>None\<close>), prints the success line, and
  the archive file is deleted; no other file changes.
\<close>

theorem extract_zip_file_empty_archive:
  assumes "files w p = Some content" and "zip_parse e content = Some []"
    and "\<not> remove_fails e p"
  shows "\<exists>w'. extract_zip_file e p w = (Inr (Some []), w')
    \<and> files w' = (files w)(p := None) \<and> files w' p = None
    \<and> trace w' = trace w @ [Print (Extracted (name p))]"
proof -
  have run: "extractall e (parent p) [] w = (Inr (), w)" by simp
  show ?thesis
    using extract_zip_file_try_valid [OF assms(1,2) run assms(3)]
    by (simp add: extract_zip_file_def)
qed

theorem extract_zip_file_empty_archive_witness:
  "fst (extract_zip_file env_empty_zip [''downloads'', ''x.zip''] world_zip) = Inr (Some [])
   \<and> files (snd (extract_zip_file env_empty_zip [''downloads'', ''x.zip''] world_zip)) [''downloads'', ''x.zip''] = None"
proof -
  have h1: "files world_zip [''downloads'', ''x.zip''] = Some ''PK''"
    by (simp add: world_zip_def)
  have h2: "zip_parse env_empty_zip ''PK'' = Some []"
    by (simp add: env_empty_zip_def env_ok_def)
  have h3: "\<not> remove_fails env_empty_zip [''downloads'', ''x.zip'']"
    by (simp add: env_empty_zip_def env_ok_def)
  from extract_zip_file_empty_archive [OF h1 h2 h3] show ?thesis
    by auto
qed

end
